theory Spec2Isabelle
  imports Complex_Main "HOL-Library.Word"
begin

section \<open>Python values used by the monitor\<close>

text \<open>
  Exceptions are values. Three classes matter to the handlers of \<^verbatim>\<open>main.py\<close>:
  instances of \<^verbatim>\<open>Exception\<close> (caught by every \<^verbatim>\<open>except Exception\<close>),
  \<^verbatim>\<open>KeyboardInterrupt\<close> (caught only in \<^verbatim>\<open>run_continuous\<close>) and the remaining
  subclasses of \<^verbatim>\<open>BaseException\<close>, which no handler of the program catches.
\<close>

datatype exc = Exception string | KeyboardInterrupt | BaseException string

fun is_Exception :: "exc \<Rightarrow> bool" where
  "is_Exception (Exception _) = True"
| "is_Exception _ = False"

fun str_exc :: "exc \<Rightarrow> string" where
  "str_exc (Exception msg) = msg"
| "str_exc KeyboardInterrupt = []"
| "str_exc (BaseException msg) = msg"

definition seq :: "exc + 'a \<Rightarrow> ('a \<Rightarrow> exc + 'b) \<Rightarrow> exc + 'b" where
  "seq r f = (case r of Inl e \<Rightarrow> Inl e | Inr v \<Rightarrow> f v)"

text \<open>
  A Python or numpy float is an IEEE 754 double: a real number or one of the three
  non-finite values. Every arithmetic operation computes the exact result and rounds it
  to the nearest double, ties to even; a result beyond the largest double becomes an
  infinity.
\<close>

datatype pyfloat = Fin real | PInf | NInf | NaN

definition signed_inf :: "real \<Rightarrow> pyfloat" where
  "signed_inf s = (if 0 < s then PInf else if s < 0 then NInf else NaN)"

text \<open>Rounding to the nearest integer, ties to even.\<close>

definition rne :: "real \<Rightarrow> int" where
  "rne x = (let f = \<lfloor>x\<rfloor>; d = x - of_int f
            in if d < 1/2 then f else if 1/2 < d then f + 1
               else if even f then f else f + 1)"

text \<open>
  The binary exponent of a positive number, between -1022 (shared by the subnormal
  numbers) and 1023: \<open>expo_up\<close> halves a number from 1 upwards until it is below 2,
  \<open>expo_down\<close> doubles a number below 1 until it reaches 1.
\<close>

fun expo_up :: "nat \<Rightarrow> real \<Rightarrow> int" where
  "expo_up 0 a = 0"
| "expo_up (Suc n) a = (if a < 2 then 0 else expo_up n (a / 2) + 1)"

fun expo_down :: "nat \<Rightarrow> real \<Rightarrow> int" where
  "expo_down 0 a = 0"
| "expo_down (Suc n) a = (if 1 \<le> a then 0 else expo_down n (a * 2) - 1)"

definition exponent :: "real \<Rightarrow> int" where
  "exponent a = (if 1 \<le> a then expo_up 1023 a else expo_down 1022 a)"

text \<open>The nearest number with a 53-bit significand at the exponent of \<open>x\<close>.\<close>

definition rd :: "real \<Rightarrow> real" where
  "rd x = (if x = 0 then 0
           else let q = 2 powi (exponent \<bar>x\<bar> - 52) in of_int (rne (x / q)) * q)"

text \<open>The double an exact result becomes.\<close>

definition fl :: "real \<Rightarrow> pyfloat" where
  "fl x = (let r = rd x in if 2 ^ 1024 \<le> \<bar>r\<bar> then signed_inf r else Fin r)"

fun fmul :: "pyfloat \<Rightarrow> pyfloat \<Rightarrow> pyfloat" where
  "fmul (Fin a) (Fin b) = fl (a * b)"
| "fmul NaN _ = NaN"
| "fmul _ NaN = NaN"
| "fmul (Fin a) PInf = signed_inf a"
| "fmul (Fin a) NInf = signed_inf (- a)"
| "fmul PInf (Fin b) = signed_inf b"
| "fmul NInf (Fin b) = signed_inf (- b)"
| "fmul PInf PInf = PInf"
| "fmul PInf NInf = NInf"
| "fmul NInf PInf = NInf"
| "fmul NInf NInf = PInf"

fun fadd :: "pyfloat \<Rightarrow> pyfloat \<Rightarrow> pyfloat" where
  "fadd (Fin a) (Fin b) = fl (a + b)"
| "fadd NaN _ = NaN"
| "fadd _ NaN = NaN"
| "fadd PInf NInf = NaN"
| "fadd NInf PInf = NaN"
| "fadd PInf _ = PInf"
| "fadd _ PInf = PInf"
| "fadd NInf _ = NInf"
| "fadd _ NInf = NInf"

text \<open>Division of a float by a number, as numpy does it: a zero divisor gives a
  non-finite value and a warning, never an exception.\<close>

fun fdiv :: "pyfloat \<Rightarrow> real \<Rightarrow> pyfloat" where
  "fdiv (Fin a) k = (if k = 0 then signed_inf a else fl (a / k))"
| "fdiv PInf k = (if 0 \<le> k then PInf else NInf)"
| "fdiv NInf k = (if 0 \<le> k then NInf else PInf)"
| "fdiv NaN k = NaN"

text \<open>\<^verbatim>\<open>np.int64 / int\<close>: numpy converts both integers to doubles and divides them.\<close>

definition np_true_divide :: "int \<Rightarrow> int \<Rightarrow> pyfloat" where
  "np_true_divide n d =
     (if d = 0 then signed_inf (of_int n) else fl (rd (of_int n) / rd (of_int d)))"

text \<open>\<^verbatim>\<open>n / d\<close> on two Python integers, \<open>d\<close> a non-zero literal: the quotient,
  rounded once.\<close>

definition int_true_divide :: "int \<Rightarrow> int \<Rightarrow> pyfloat" where
  "int_true_divide n d = fl (of_int n / of_int d)"

fun flt :: "pyfloat \<Rightarrow> pyfloat \<Rightarrow> bool" where
  "flt (Fin a) (Fin b) = (a < b)"
| "flt NaN _ = False"
| "flt _ NaN = False"
| "flt NInf NInf = False"
| "flt NInf _ = True"
| "flt PInf _ = False"
| "flt (Fin a) PInf = True"
| "flt (Fin a) NInf = False"

text \<open>The builtin \<^verbatim>\<open>min(a, b)\<close> keeps \<open>a\<close> unless \<open>b < a\<close>.\<close>

definition py_min :: "pyfloat \<Rightarrow> pyfloat \<Rightarrow> pyfloat" where
  "py_min a b = (if flt b a then b else a)"

text \<open>\<^verbatim>\<open>int(x)\<close> truncates towards zero and raises on a non-finite float.\<close>

fun py_int :: "pyfloat \<Rightarrow> exc + int" where
  "py_int (Fin r) = Inr (if 0 \<le> r then \<lfloor>r\<rfloor> else \<lceil>r\<rceil>)"
| "py_int NaN = Inl (Exception ''cannot convert float NaN to integer'')"
| "py_int PInf = Inl (Exception ''cannot convert float infinity to integer'')"
| "py_int NInf = Inl (Exception ''cannot convert float infinity to integer'')"

datatype pyval = PFloat pyfloat | PInt int | PStr string

type_synonym metadata = "(string \<times> pyval) list"

section \<open>Arrays and the library operations\<close>

record u8array =
  shape :: "nat list"
  pixels :: "8 word list"

type_synonym contour = "(int \<times> int) list"

definition shape_at :: "nat list \<Rightarrow> nat \<Rightarrow> exc + nat" where
  "shape_at s i = (if i < length s then Inr (s ! i)
                   else Inl (Exception ''tuple index out of range''))"

text \<open>\<^verbatim>\<open>image.shape[0] * image.shape[1]\<close>\<close>

definition pixel_count :: "u8array \<Rightarrow> exc + int" where
  "pixel_count img =
     seq (shape_at (shape img) 0) (\<lambda>h.
     seq (shape_at (shape img) 1) (\<lambda>w. Inr (int h * int w)))"

text \<open>\<^verbatim>\<open>np.sum(a > 0)\<close>\<close>

definition np_sum_gt0 :: "u8array \<Rightarrow> int" where
  "np_sum_gt0 a = int (length (filter (\<lambda>p. 0 < p) (pixels a)))"

text \<open>\<^verbatim>\<open>np.var\<close>: the population variance of all elements, NaN on an empty array.
  The roundings inside numpy's reduction are not modelled: the variance is rounded
  once.\<close>

definition np_var :: "real list \<Rightarrow> pyfloat" where
  "np_var xs =
     (if xs = [] then NaN
      else let n = real (length xs); mu = sum_list xs / n
           in fl (sum_list (map (\<lambda>x. (x - mu)\<^sup>2) xs) / n))"

definition pixel_values :: "u8array \<Rightarrow> real list" where
  "pixel_values a = map (\<lambda>p. real (unat p)) (pixels a)"

text \<open>
  The OpenCV functions are a parameter of the model: each may raise, and the background
  subtractor carries a state of type \<open>'bg\<close> that every call to \<open>bg_apply\<close> updates.
\<close>

record 'bg cv2 =
  cvtColor :: "u8array \<Rightarrow> exc + u8array"
  bg_apply :: "'bg \<Rightarrow> u8array \<Rightarrow> (exc + u8array) \<times> 'bg"
  Canny :: "u8array \<Rightarrow> int \<Rightarrow> int \<Rightarrow> exc + u8array"
  Laplacian :: "u8array \<Rightarrow> exc + real list"
  findContours :: "u8array \<Rightarrow> exc + contour list"
  contourArea :: "contour \<Rightarrow> exc + pyfloat"

section \<open>BusynessEvaluator\<close>

text \<open>\<^verbatim>\<open>[c for c in contours if cv2.contourArea(c) > 100]\<close>\<close>

fun big_contours :: "(contour \<Rightarrow> exc + pyfloat) \<Rightarrow> contour list \<Rightarrow> exc + contour list" where
  "big_contours area [] = Inr []"
| "big_contours area (c # cs) =
     (case area c of
        Inl e \<Rightarrow> Inl e
      | Inr a \<Rightarrow> (case big_contours area cs of
                   Inl e \<Rightarrow> Inl e
                 | Inr r \<Rightarrow> Inr (if flt (Fin 100) a then c # r else r)))"

record signals =
  motion_ratio :: pyfloat
  edge_ratio :: pyfloat
  color_variance :: pyfloat
  laplacian_var :: pyfloat
  contour_count :: int

text \<open>Lines 55 to 73: the five raw measurements, in the order the source takes them.\<close>

definition measure_signals ::
  "'bg cv2 \<Rightarrow> u8array \<Rightarrow> u8array \<Rightarrow> u8array \<Rightarrow> exc + signals" where
  "measure_signals cv img gray motion_mask =
     seq (pixel_count img) (\<lambda>n1.
     seq (Canny cv gray 50 150) (\<lambda>edges.
     seq (pixel_count img) (\<lambda>n2.
     seq (Laplacian cv gray) (\<lambda>lap.
     seq (findContours cv edges) (\<lambda>contours.
     seq (big_contours (contourArea cv) contours) (\<lambda>big.
     Inr \<lparr> motion_ratio = np_true_divide (np_sum_gt0 motion_mask) n1,
           edge_ratio = np_true_divide (np_sum_gt0 edges) n2,
           color_variance = np_var (pixel_values img),
           laplacian_var = np_var lap,
           contour_count = int (length big) \<rparr>))))))"

definition weights :: "(string \<times> real) list" where
  "weights = [(''motion'', 0.3), (''edges'', 0.2), (''variance'', 0.2),
              (''texture'', 0.15), (''contours'', 0.15)]"

text \<open>\<^verbatim>\<open>weights[k]\<close>, used with the five literal keys only: the double nearest to
  the decimal literal.\<close>

definition weight :: "string \<Rightarrow> pyfloat" where
  "weight k = Fin (rd (the (map_of weights k)))"

definition combined_score ::
  "pyfloat \<Rightarrow> pyfloat \<Rightarrow> pyfloat \<Rightarrow> pyfloat \<Rightarrow> pyfloat \<Rightarrow> pyfloat" where
  "combined_score motion edges variance texture contours =
     fadd (fadd (fadd (fadd (fmul (weight ''motion'') motion)
                            (fmul (weight ''edges'') edges))
                      (fmul (weight ''variance'') variance))
                (fmul (weight ''texture'') texture))
          (fmul (weight ''contours'') contours)"

text \<open>Line 94: \<^verbatim>\<open>max(1, min(10, int(combined_score * 9 + 1)))\<close>\<close>

definition busyness_of :: "pyfloat \<Rightarrow> exc + int" where
  "busyness_of combined =
     seq (py_int (fadd (fmul combined (Fin 9)) (Fin 1))) (\<lambda>n. Inr (max 1 (min 10 n)))"

definition normalized_variance :: "signals \<Rightarrow> pyfloat" where
  "normalized_variance sg = py_min (fdiv (color_variance sg) 10000) (Fin 1)"

definition normalized_laplacian :: "signals \<Rightarrow> pyfloat" where
  "normalized_laplacian sg = py_min (fdiv (laplacian_var sg) 1000) (Fin 1)"

definition normalized_contours :: "signals \<Rightarrow> pyfloat" where
  "normalized_contours sg = py_min (int_true_divide (contour_count sg) 20) (Fin 1)"

definition combined_of :: "signals \<Rightarrow> pyfloat" where
  "combined_of sg =
     combined_score (motion_ratio sg) (edge_ratio sg) (normalized_variance sg)
       (normalized_laplacian sg) (normalized_contours sg)"

text \<open>Lines 76 to 105: normalisation, the weighted sum, the score and the metadata.\<close>

definition score_signals :: "signals \<Rightarrow> exc + (int \<times> metadata)" where
  "score_signals sg =
     seq (busyness_of (combined_of sg)) (\<lambda>busyness_score.
       Inr (busyness_score,
            [(''motion_ratio'', PFloat (motion_ratio sg)),
             (''edge_ratio'', PFloat (edge_ratio sg)),
             (''color_variance'', PFloat (color_variance sg)),
             (''texture_variance'', PFloat (laplacian_var sg)),
             (''contour_count'', PInt (contour_count sg)),
             (''combined_raw'', PFloat (combined_of sg))]))"

text \<open>The body of the \<^verbatim>\<open>try\<close> block, with the background model it leaves behind.\<close>

definition try_body ::
  "'bg cv2 \<Rightarrow> 'bg \<Rightarrow> u8array \<Rightarrow> (exc + (int \<times> metadata)) \<times> 'bg" where
  "try_body cv bg img =
     (case cvtColor cv img of
        Inl e \<Rightarrow> (Inl e, bg)
      | Inr gray \<Rightarrow>
          (case bg_apply cv bg img of
             (r, bg') \<Rightarrow>
               (seq r (\<lambda>motion_mask.
                  seq (measure_signals cv img gray motion_mask) score_signals), bg')))"

text \<open>\<^verbatim>\<open>except Exception as e: return 5, {'error': str(e)}\<close>; any other exception
  propagates.\<close>

definition calculate_busyness_score ::
  "'bg cv2 \<Rightarrow> 'bg \<Rightarrow> u8array \<Rightarrow> (exc + (int \<times> metadata)) \<times> 'bg" where
  "calculate_busyness_score cv bg img =
     (case try_body cv bg img of
        (Inr r, bg') \<Rightarrow> (Inr r, bg')
      | (Inl e, bg') \<Rightarrow>
          if is_Exception e then (Inr (5, [(''error'', PStr (str_exc e))]), bg')
          else (Inl e, bg'))"

section \<open>CloudflareUploader\<close>

text \<open>The columns named by the \<^verbatim>\<open>INSERT\<close> statement, in its order.\<close>

definition insert_columns :: "string list" where
  "insert_columns =
     [''timestamp'', ''score'', ''motion_ratio'', ''edge_ratio'', ''color_variance'',
      ''texture_variance'', ''contour_count'', ''combined_raw'', ''metadata'', ''notes'',
      ''camera_name'']"

text \<open>\<^verbatim>\<open>d.get(k, default)\<close>\<close>

definition dict_get :: "metadata \<Rightarrow> string \<Rightarrow> pyval \<Rightarrow> pyval" where
  "dict_get d k dflt = (case map_of d k of Some v \<Rightarrow> v | None \<Rightarrow> dflt)"

text \<open>Lines 183 to 195. \<^verbatim>\<open>json.dumps\<close> is a parameter: the metadata holds floats,
  integers and strings only, which it always serialises.\<close>

definition upload_params ::
  "(metadata \<Rightarrow> string) \<Rightarrow> int \<Rightarrow> metadata \<Rightarrow> string \<Rightarrow> string \<Rightarrow> string \<Rightarrow> pyval list" where
  "upload_params dumps score metadata timestamp notes camera_name =
     [PStr timestamp,
      PInt score,
      dict_get metadata ''motion_ratio'' (PInt 0),
      dict_get metadata ''edge_ratio'' (PInt 0),
      dict_get metadata ''color_variance'' (PInt 0),
      dict_get metadata ''texture_variance'' (PInt 0),
      dict_get metadata ''contour_count'' (PInt 0),
      dict_get metadata ''combined_raw'' (PInt 0),
      PStr (dumps metadata),
      PStr notes,
      PStr camera_name]"

text \<open>What \<^verbatim>\<open>requests.post\<close> returned: the status code, and the truth value of
  \<^verbatim>\<open>response.json().get('success', False)\<close>, or the exception \<^verbatim>\<open>json()\<close> raised.\<close>

record response =
  status_code :: int
  json_success :: "exc + bool"

definition upload_busyness_data ::
  "(pyval list \<Rightarrow> exc + response) \<Rightarrow> (metadata \<Rightarrow> string) \<Rightarrow>
   int \<Rightarrow> metadata \<Rightarrow> string \<Rightarrow> string \<Rightarrow> string \<Rightarrow> exc + bool" where
  "upload_busyness_data post dumps score metadata timestamp notes camera_name =
     (let params = upload_params dumps score metadata timestamp notes camera_name;
          r = seq (post params) (\<lambda>resp.
                if status_code resp = 200
                then seq (json_success resp) (\<lambda>ok. Inr ok)
                else Inr False)
      in case r of
           Inl e \<Rightarrow> if is_Exception e then Inr False else Inl e
         | Inr ok \<Rightarrow> Inr ok)"

section \<open>CameraCapture\<close>

text \<open>\<open>cap\<close> is \<open>None\<close> before \<^verbatim>\<open>cv2.VideoCapture\<close> was called and \<open>Some opened\<close>
  afterwards, \<open>opened\<close> being what \<^verbatim>\<open>isOpened()\<close> returns. \<open>released\<close> counts the
  calls of \<^verbatim>\<open>cap.release()\<close>.\<close>

record camera_capture =
  camera_index :: int
  cap :: "bool option"
  released :: nat

definition initialize_camera ::
  "camera_capture \<Rightarrow> exc + bool \<Rightarrow> (exc + bool) \<times> camera_capture" where
  "initialize_camera cam video_capture =
     (case video_capture of
        Inl e \<Rightarrow> (if is_Exception e then Inr False else Inl e, cam)
      | Inr opened \<Rightarrow> (Inr opened, cam\<lparr>cap := Some opened\<rparr>))"

definition capture_image ::
  "camera_capture \<Rightarrow> exc + (bool \<times> u8array) \<Rightarrow> exc + u8array option" where
  "capture_image cam frame_read =
     (case cap cam of
        None \<Rightarrow> Inr None
      | Some opened \<Rightarrow>
          if \<not> opened then Inr None
          else (case frame_read of
                  Inl e \<Rightarrow> if is_Exception e then Inr None else Inl e
                | Inr (ret, frame) \<Rightarrow> if \<not> ret then Inr None else Inr (Some frame)))"

definition release_camera :: "camera_capture \<Rightarrow> camera_capture" where
  "release_camera cam =
     (case cap cam of
        None \<Rightarrow> cam
      | Some _ \<Rightarrow> cam\<lparr>cap := Some False, released := released cam + 1\<rparr>)"

section \<open>BusynessMonitor\<close>

text \<open>What one pass of the loop receives from outside: the frame read, the clock, the
  HTTP endpoint, and the exception delivered while sleeping, if any. The calls of the
  logger are left out: they change nothing the monitor reads and are taken to return.\<close>

record cycle_io =
  cap_read :: "exc + (bool \<times> u8array)"
  now :: string
  post :: "pyval list \<Rightarrow> exc + response"
  sleep_raises :: "exc option"

datatype event = Cycle bool | Slept int

record observation =
  timestamp :: string
  score :: int
  metadata :: metadata

record 'bg monitor =
  camera :: camera_capture
  evaluator :: 'bg
  interval :: int
  session_notes :: string
  camera_name :: string
  running :: bool
  trace :: "event list"

definition initialize :: "'bg monitor \<Rightarrow> exc + bool \<Rightarrow> (exc + bool) \<times> 'bg monitor" where
  "initialize m video_capture =
     (case initialize_camera (camera m) video_capture of
        (r, cam) \<Rightarrow> (r, m\<lparr>camera := cam\<rparr>))"

definition capture_and_analyze ::
  "'bg cv2 \<Rightarrow> 'bg monitor \<Rightarrow> cycle_io \<Rightarrow> (exc + observation option) \<times> 'bg monitor" where
  "capture_and_analyze cv m io =
     (let (r, m') =
        (case capture_image (camera m) (cap_read io) of
           Inl e \<Rightarrow> (Inl e, m)
         | Inr None \<Rightarrow> (Inr None, m)
         | Inr (Some frame) \<Rightarrow>
             (case calculate_busyness_score cv (evaluator m) frame of
                (Inl e, bg') \<Rightarrow> (Inl e, m\<lparr>evaluator := bg'\<rparr>)
              | (Inr (s, md), bg') \<Rightarrow>
                  (Inr (Some \<lparr>timestamp = now io, score = s, metadata = md\<rparr>),
                   m\<lparr>evaluator := bg'\<rparr>)))
      in case r of
           Inl e \<Rightarrow> (if is_Exception e then Inr None else Inl e, m')
         | Inr d \<Rightarrow> (Inr d, m'))"

definition upload_data ::
  "(metadata \<Rightarrow> string) \<Rightarrow> 'bg monitor \<Rightarrow> cycle_io \<Rightarrow> observation \<Rightarrow> exc + bool" where
  "upload_data dumps m io d =
     upload_busyness_data (post io) dumps (score d) (metadata d) (timestamp d)
       (session_notes m) (camera_name m)"

text \<open>\<open>run_once\<close> records the value it returns in the trace.\<close>

definition run_once ::
  "'bg cv2 \<Rightarrow> (metadata \<Rightarrow> string) \<Rightarrow> 'bg monitor \<Rightarrow> cycle_io \<Rightarrow> (exc + bool) \<times> 'bg monitor" where
  "run_once cv dumps m io =
     (let (r, m') =
        (case capture_and_analyze cv m io of
           (Inl e, m1) \<Rightarrow> (Inl e, m1)
         | (Inr None, m1) \<Rightarrow> (Inr False, m1)
         | (Inr (Some d), m1) \<Rightarrow> (upload_data dumps m1 io d, m1))
      in case (case r of Inl e \<Rightarrow> if is_Exception e then Inr False else Inl e
                       | Inr ok \<Rightarrow> Inr ok) of
           Inl e \<Rightarrow> (Inl e, m')
         | Inr ok \<Rightarrow> (Inr ok, m'\<lparr>trace := trace m' @ [Cycle ok]\<rparr>))"

text \<open>
  \<^verbatim>\<open>time.sleep\<close> on an integer number of seconds. CPython first converts the length
  to nanoseconds in a signed 64-bit integer and raises \<^verbatim>\<open>OverflowError\<close> when it does
  not fit, then refuses a negative length with \<^verbatim>\<open>ValueError\<close>. Otherwise it
  returns, unless an exception is delivered meanwhile: an interrupt, or the
  \<^verbatim>\<open>OSError\<close> of an operating system that rejects the deadline.
\<close>

definition time_sleep :: "int \<Rightarrow> exc option \<Rightarrow> exc + unit" where
  "time_sleep secs delivered =
     (if secs * 10 ^ 9 < - (2 ^ 63) \<or> 2 ^ 63 - 1 < secs * 10 ^ 9
      then Inl (Exception ''timestamp too large to convert to C _PyTime_t'')
      else if secs < 0 then Inl (Exception ''sleep length must be non-negative'')
      else case delivered of None \<Rightarrow> Inr () | Some e \<Rightarrow> Inl e)"

text \<open>The body of the \<^verbatim>\<open>while\<close> loop: one cycle, then the sleep.\<close>

definition loop_body ::
  "'bg cv2 \<Rightarrow> (metadata \<Rightarrow> string) \<Rightarrow> 'bg monitor \<Rightarrow> cycle_io \<Rightarrow> (exc + unit) \<times> 'bg monitor" where
  "loop_body cv dumps m io =
     (case run_once cv dumps m io of
        (Inl e, m1) \<Rightarrow> (Inl e, m1)
      | (Inr ok, m1) \<Rightarrow>
          (case time_sleep (interval m1) (sleep_raises io) of
             Inl e \<Rightarrow> (Inl e, m1)
           | Inr u \<Rightarrow> (Inr (), m1\<lparr>trace := trace m1 @ [Slept (interval m1)]\<rparr>)))"

text \<open>
  The loop consumes one \<open>cycle_io\<close> per pass. It may run forever: when the script of
  passes is used up and the loop has not stopped, the result is \<open>None\<close>.
\<close>

fun while_loop ::
  "'bg cv2 \<Rightarrow> (metadata \<Rightarrow> string) \<Rightarrow> 'bg monitor \<Rightarrow> cycle_io list \<Rightarrow>
   (exc + unit) option \<times> 'bg monitor" where
  "while_loop cv dumps m [] = (if running m then (None, m) else (Some (Inr ()), m))"
| "while_loop cv dumps m (io # ios) =
     (if \<not> running m then (Some (Inr ()), m)
      else case loop_body cv dumps m io of
             (Inl e, m1) \<Rightarrow> (Some (Inl e), m1)
           | (Inr u, m1) \<Rightarrow> while_loop cv dumps m1 ios)"

definition cleanup :: "'bg monitor \<Rightarrow> 'bg monitor" where
  "cleanup m = m\<lparr>running := False, camera := release_camera (camera m)\<rparr>"

definition run_continuous ::
  "'bg cv2 \<Rightarrow> (metadata \<Rightarrow> string) \<Rightarrow> 'bg monitor \<Rightarrow> cycle_io list \<Rightarrow>
   (exc + unit) option \<times> 'bg monitor" where
  "run_continuous cv dumps m ios =
     (case while_loop cv dumps (m\<lparr>running := True\<rparr>) ios of
        (None, m1) \<Rightarrow> (None, m1)
      | (Some (Inr u), m1) \<Rightarrow> (Some (Inr ()), cleanup m1)
      | (Some (Inl e), m1) \<Rightarrow>
          (Some (if e = KeyboardInterrupt then Inr ()
                 else if is_Exception e then Inr ()
                 else Inl e), cleanup m1))"

section \<open>main\<close>

record args =
  arg_camera :: int
  arg_camera_name :: string
  arg_interval :: int
  arg_notes :: string
  arg_once :: bool

text \<open>\<^verbatim>\<open>BusynessMonitor.__init__\<close>; \<open>bg0\<close> is the fresh background subtractor.\<close>

definition new_monitor :: "'bg \<Rightarrow> args \<Rightarrow> 'bg monitor" where
  "new_monitor bg0 a =
     \<lparr> camera = \<lparr>camera_index = arg_camera a, cap = None, released = 0\<rparr>,
       evaluator = bg0,
       interval = arg_interval a,
       session_notes = arg_notes a,
       camera_name = arg_camera_name a,
       running = False,
       trace = [] \<rparr>"

text \<open>Lines 369 to 383: the \<^verbatim>\<open>try\<close> statement of \<^verbatim>\<open>main\<close>. The result is the exit
  status, or the exception that leaves \<^verbatim>\<open>main\<close>.\<close>

definition main_try ::
  "'bg cv2 \<Rightarrow> (metadata \<Rightarrow> string) \<Rightarrow> bool \<Rightarrow> 'bg monitor \<Rightarrow> cycle_io list \<Rightarrow>
   (exc + int) option \<times> 'bg monitor" where
  "main_try cv dumps once m ios =
     (let (r, m') =
        (if once then
           (case ios of
              [] \<Rightarrow> (None, m)
            | io # _ \<Rightarrow>
                (case run_once cv dumps m io of
                   (Inl e, m1) \<Rightarrow> (Some (Inl e), m1)
                 | (Inr success, m1) \<Rightarrow> (Some (Inr (if success then 0 else 1)), m1)))
         else
           (case run_continuous cv dumps m ios of
              (None, m1) \<Rightarrow> (None, m1)
            | (Some (Inl e), m1) \<Rightarrow> (Some (Inl e), m1)
            | (Some (Inr u), m1) \<Rightarrow> (Some (Inr 0), m1)))
      in case r of
           None \<Rightarrow> (None, m')
         | Some (Inl e) \<Rightarrow> (Some (if is_Exception e then Inr 1 else Inl e), cleanup m')
         | Some (Inr status) \<Rightarrow> (Some (Inr status), cleanup m'))"

definition main ::
  "'bg cv2 \<Rightarrow> (metadata \<Rightarrow> string) \<Rightarrow> 'bg \<Rightarrow> args \<Rightarrow> exc + bool \<Rightarrow> cycle_io list \<Rightarrow>
   (exc + int) option \<times> 'bg monitor" where
  "main cv dumps bg0 a video_capture ios =
     (case initialize (new_monitor bg0 a) video_capture of
        (Inl e, m) \<Rightarrow> (Some (Inl e), m)
      | (Inr ok, m) \<Rightarrow>
          if \<not> ok then (Some (Inr 1), m)
          else main_try cv dumps (arg_once a) m ios)"

section \<open>The score as the specification words it\<close>

text \<open>Rounding to the nearest integer where the source truncates; for comparison only.\<close>

definition rounded_score :: "real \<Rightarrow> int" where
  "rounded_score c = max 1 (min 10 (round (c * 9) + 1))"

section \<open>Sample inputs\<close>

text \<open>A one-pixel gray frame and a library under which nothing moves and nothing has
  an edge; a second library rejects every frame.\<close>

definition gray_frame :: u8array where
  "gray_frame = \<lparr>shape = [1, 1, 3], pixels = [200, 200, 200]\<rparr>"

definition gray_plane :: u8array where
  "gray_plane = \<lparr>shape = [1, 1], pixels = [200]\<rparr>"

definition zero_mask :: u8array where
  "zero_mask = \<lparr>shape = [1, 1], pixels = [0]\<rparr>"

definition still_cv :: "unit cv2" where
  "still_cv =
     \<lparr> cvtColor = (\<lambda>a. Inr gray_plane),
       bg_apply = (\<lambda>bg a. (Inr zero_mask, bg)),
       Canny = (\<lambda>a lo hi. Inr zero_mask),
       Laplacian = (\<lambda>a. Inr [0]),
       findContours = (\<lambda>a. Inr []),
       contourArea = (\<lambda>c. Inr (Fin 0)) \<rparr>"

definition failing_cv :: "unit cv2" where
  "failing_cv = still_cv\<lparr>cvtColor := (\<lambda>a. Inl (Exception ''bad frame''))\<rparr>"

definition still_signals :: signals where
  "still_signals =
     \<lparr>motion_ratio = Fin 0, edge_ratio = Fin 0, color_variance = Fin 0,
      laplacian_var = Fin 0, contour_count = 0\<rparr>"

definition still_md :: metadata where
  "still_md =
     [(''motion_ratio'', PFloat (Fin 0)), (''edge_ratio'', PFloat (Fin 0)),
      (''color_variance'', PFloat (Fin 0)), (''texture_variance'', PFloat (Fin 0)),
      (''contour_count'', PInt 0), (''combined_raw'', PFloat (Fin 0))]"

definition plain_dumps :: "metadata \<Rightarrow> string" where
  "plain_dumps md = ''{}''"

definition sample_args :: args where
  "sample_args =
     \<lparr>arg_camera = 0, arg_camera_name = ''MacBook Camera'', arg_interval = 5,
      arg_notes = [], arg_once = False\<rparr>"

definition negative_args :: args where
  "negative_args = sample_args\<lparr>arg_interval := - 1\<rparr>"

text \<open>The monitor of \<open>sample_args\<close> after \<open>initialize\<close> opened the camera.\<close>

definition ready_monitor :: "unit monitor" where
  "ready_monitor = snd (initialize (new_monitor () sample_args) (Inr True))"

text \<open>A pass in which the camera delivers no frame, and the same pass with an interrupt
  arriving during the sleep.\<close>

definition no_frame_io :: cycle_io where
  "no_frame_io =
     \<lparr>cap_read = Inr (False, gray_frame), now = ''2025-01-01T00:00:00'',
      post = (\<lambda>params. Inr \<lparr>status_code = 200, json_success = Inr True\<rparr>),
      sleep_raises = None\<rparr>"

definition interrupted_io :: cycle_io where
  "interrupted_io = no_frame_io\<lparr>sleep_raises := Some KeyboardInterrupt\<rparr>"

section \<open>Rounding to doubles\<close>

lemma rne_of_int [simp]: "rne (of_int n) = n"
  by (simp add: rne_def)

lemma rne_bounds: "\<lfloor>x\<rfloor> \<le> rne x \<and> rne x \<le> \<lfloor>x\<rfloor> + 1"
  by (simp add: rne_def Let_def)

lemma rne_mono: "x \<le> y \<Longrightarrow> rne x \<le> rne y"
proof -
  assume xy: "x \<le> y"
  then have fl: "\<lfloor>x\<rfloor> \<le> \<lfloor>y\<rfloor>" by (rule floor_mono)
  show ?thesis
  proof (cases "\<lfloor>x\<rfloor> = \<lfloor>y\<rfloor>")
    case True
    with xy show ?thesis by (auto simp: rne_def Let_def)
  next
    case False
    with fl have "\<lfloor>x\<rfloor> + 1 \<le> \<lfloor>y\<rfloor>" by simp
    with rne_bounds [of x] rne_bounds [of y] show ?thesis by linarith
  qed
qed

lemma expo_up_bounds:
  "1 \<le> a \<Longrightarrow> 0 \<le> expo_up n a \<and> expo_up n a \<le> int n \<and> 2 powi (expo_up n a) \<le> a \<and>
     (a < 2 powi (expo_up n a + 1) \<or> (expo_up n a = int n \<and> 2 powi (int n + 1) \<le> a))"
proof (induction n arbitrary: a)
  case 0
  then show ?case by auto
next
  case (Suc n)
  show ?case
  proof (cases "a < 2")
    case True
    with Suc.prems show ?thesis by simp
  next
    case False
    then have "1 \<le> a / 2" by simp
    from Suc.IH [OF this] False show ?thesis
      by (auto simp: power_int_add field_simps)
  qed
qed

lemma expo_down_bounds:
  "0 < a \<Longrightarrow> a < 2 \<Longrightarrow> - int n \<le> expo_down n a \<and> expo_down n a \<le> 0 \<and>
     a < 2 powi (expo_down n a + 1) \<and>
     (2 powi (expo_down n a) \<le> a \<or> expo_down n a = - int n)"
proof (induction n arbitrary: a)
  case 0
  then show ?case by auto
next
  case (Suc n)
  show ?case
  proof (cases "1 \<le> a")
    case True
    with Suc.prems show ?thesis by simp
  next
    case False
    with Suc.prems have "0 < a * 2" "a * 2 < 2" by simp_all
    from Suc.IH [OF this] False show ?thesis
      by (auto simp: power_int_add power_int_diff field_simps)
  qed
qed


lemma exponent_range: "0 < a \<Longrightarrow> - 1022 \<le> exponent a \<and> exponent a \<le> 1023"
proof (cases "1 \<le> a")
  case True
  with expo_up_bounds [OF True, of 1023] show ?thesis by (simp add: exponent_def)
next
  case False
  assume "0 < a"
  with False expo_down_bounds [of a 1022] show ?thesis by (simp add: exponent_def)
qed

lemma exponent_upper: "0 < a \<Longrightarrow> a < 2 powi (exponent a + 1) \<or> exponent a = 1023"
proof (cases "1 \<le> a")
  case True
  with expo_up_bounds [OF True, of 1023] show ?thesis by (auto simp: exponent_def)
next
  case False
  assume "0 < a"
  with False expo_down_bounds [of a 1022] show ?thesis by (simp add: exponent_def)
qed

lemma exponent_lower: "0 < a \<Longrightarrow> 2 powi (exponent a) \<le> a \<or> exponent a = - 1022"
proof (cases "1 \<le> a")
  case True
  with expo_up_bounds [OF True, of 1023] show ?thesis by (auto simp: exponent_def)
next
  case False
  assume "0 < a"
  with False expo_down_bounds [of a 1022] show ?thesis by (auto simp: exponent_def)
qed

lemma exponent_unique:
  assumes "2 powi e \<le> a" "a < 2 powi (e + 1)" "- 1022 \<le> e" "e \<le> 1023"
  shows "exponent a = e"
proof -
  have "0 < (2::real) powi e" by simp
  with assms(1) have pos: "0 < a" by linarith
  note r = exponent_range [OF pos]
  have "exponent a \<le> e"
  proof (rule ccontr)
    assume "\<not> exponent a \<le> e"
    then have gt: "e + 1 \<le> exponent a" by simp
    with assms(3) exponent_lower [OF pos] have "2 powi (exponent a) \<le> a" by auto
    moreover from gt have "(2::real) powi (e + 1) \<le> 2 powi (exponent a)"
      by (intro power_int_increasing) simp_all
    ultimately show False using assms(2) by linarith
  qed
  moreover have "e \<le> exponent a"
  proof (rule ccontr)
    assume "\<not> e \<le> exponent a"
    then have lt: "exponent a + 1 \<le> e" by simp
    with assms(4) exponent_upper [OF pos] have "a < 2 powi (exponent a + 1)" by auto
    moreover from lt have "(2::real) powi (exponent a + 1) \<le> 2 powi e"
      by (intro power_int_increasing) simp_all
    ultimately show False using assms(1) by linarith
  qed
  ultimately show ?thesis by simp
qed

lemma exponent_mono:
  assumes "0 < a" "a \<le> b"
  shows "exponent a \<le> exponent b"
proof (rule ccontr)
  assume "\<not> exponent a \<le> exponent b"
  then have lt: "exponent b + 1 \<le> exponent a" by simp
  have posb: "0 < b" using assms by simp
  from lt exponent_range [OF posb] exponent_lower [OF assms(1)]
  have "2 powi (exponent a) \<le> a" by auto
  moreover from lt exponent_range [OF assms(1)] exponent_upper [OF posb]
  have "b < 2 powi (exponent b + 1)" by auto
  moreover from lt have "(2::real) powi (exponent b + 1) \<le> 2 powi (exponent a)"
    by (intro power_int_increasing) simp_all
  ultimately show False using assms(2) by linarith
qed

lemma rd_pos: "0 < x \<Longrightarrow> rd x = of_int (rne (x / 2 powi (exponent x - 52))) * 2 powi (exponent x - 52)"
  by (simp add: rd_def Let_def)

lemma rd_0 [simp]: "rd 0 = 0"
  by (simp add: rd_def)

lemma rd_nonneg: "0 \<le> x \<Longrightarrow> 0 \<le> rd x"
proof (cases "x = 0")
  case True
  then show ?thesis by simp
next
  case False
  assume "0 \<le> x"
  with False have pos: "0 < x" by simp
  have "0 \<le> x / 2 powi (exponent x - 52)" using pos by simp
  then have "rne 0 \<le> rne (x / 2 powi (exponent x - 52))" by (rule rne_mono)
  then have "0 \<le> rne (x / 2 powi (exponent x - 52))" by (simp add: rne_def)
  then show ?thesis by (simp add: rd_pos [OF pos])
qed

lemma rd_mono_pos:
  assumes "0 < x" "x \<le> y"
  shows "rd x \<le> rd y"
proof -
  have posy: "0 < y" using assms by simp
  let ?ex = "exponent x" and ?ey = "exponent y"
  let ?qx = "(2::real) powi (?ex - 52)" and ?qy = "(2::real) powi (?ey - 52)"
  have le: "?ex \<le> ?ey" by (rule exponent_mono [OF assms])
  show ?thesis
  proof (cases "?ex = ?ey")
    case True
    have "x / ?qx \<le> y / ?qx" using assms(2) by (simp add: divide_right_mono)
    then have "rne (x / ?qx) \<le> rne (y / ?qx)" by (rule rne_mono)
    then have "of_int (rne (x / ?qx)) * ?qx \<le> of_int (rne (y / ?qx)) * ?qx"
      by (simp add: mult_right_mono)
    with True show ?thesis by (simp add: rd_pos [OF assms(1)] rd_pos [OF posy])
  next
    case False
    with le have lt: "?ex + 1 \<le> ?ey" by simp
    from lt exponent_range [OF posy] exponent_upper [OF assms(1)]
    have ux: "x < 2 powi (?ex + 1)" by auto
    from lt exponent_range [OF assms(1)] exponent_lower [OF posy]
    have ly: "2 powi ?ey \<le> y" by auto
    have "x / ?qx < 2 powi (?ex + 1) / ?qx" using ux by (simp add: divide_strict_right_mono)
    also have "2 powi (?ex + 1) / ?qx = (2::real) powi 53"
      by (simp add: power_int_diff power_int_add)
    finally have "x / ?qx \<le> of_int (2 ^ 53)" by simp
    then have "rne (x / ?qx) \<le> rne (of_int (2 ^ 53))" by (rule rne_mono)
    then have "rne (x / ?qx) \<le> 2 ^ 53" by (simp only: rne_of_int)
    then have "(of_int (rne (x / ?qx)) :: real) \<le> of_int (2 ^ 53)" by (simp only: of_int_le_iff)
    then have "of_int (rne (x / ?qx)) * ?qx \<le> of_int (2 ^ 53) * ?qx"
      by (rule mult_right_mono) simp
    also have "of_int (2 ^ 53) * ?qx = (2::real) powi (?ex + 1)"
      by (simp add: power_int_diff power_int_add)
    finally have a: "rd x \<le> 2 powi (?ex + 1)" by (simp add: rd_pos [OF assms(1)])
    have "2 powi ?ey / ?qy \<le> y / ?qy" using ly by (simp add: divide_right_mono)
    moreover have "2 powi ?ey / ?qy = (2::real) powi 52"
      by (simp add: power_int_diff)
    ultimately have "of_int (2 ^ 52) \<le> y / ?qy" by simp
    then have "rne (of_int (2 ^ 52)) \<le> rne (y / ?qy)" by (rule rne_mono)
    then have "2 ^ 52 \<le> rne (y / ?qy)" by (simp only: rne_of_int)
    then have "(of_int (2 ^ 52) :: real) \<le> of_int (rne (y / ?qy))" by (simp only: of_int_le_iff)
    then have step: "of_int (2 ^ 52) * ?qy \<le> of_int (rne (y / ?qy)) * ?qy"
      by (rule mult_right_mono) simp
    have "(2::real) powi ?ey = of_int (2 ^ 52) * ?qy"
      by (simp add: power_int_diff)
    also note step
    also have "of_int (rne (y / ?qy)) * ?qy = rd y" by (simp only: rd_pos [OF posy])
    finally have b: "2 powi ?ey \<le> rd y" .
    from lt have "(2::real) powi (?ex + 1) \<le> 2 powi ?ey"
      by (intro power_int_increasing) simp_all
    with a b show ?thesis by linarith
  qed
qed

lemma rd_mono: "0 \<le> x \<Longrightarrow> x \<le> y \<Longrightarrow> rd x \<le> rd y"
proof (cases "x = 0")
  case True
  assume "0 \<le> x" "x \<le> y"
  with True rd_nonneg [of y] show ?thesis by simp
next
  case False
  assume "0 \<le> x" "x \<le> y"
  with False show ?thesis by (intro rd_mono_pos) simp_all
qed


lemma rd_eval:
  assumes "2 powi e \<le> \<bar>x\<bar>" "\<bar>x\<bar> < 2 powi (e + 1)" "- 1022 \<le> e" "e \<le> 1023"
  shows "rd x = of_int (rne (x / 2 powi (e - 52))) * 2 powi (e - 52)"
proof -
  have "0 < (2::real) powi e" by simp
  with assms(1) have "0 < \<bar>x\<bar>" by linarith
  then have "x \<noteq> 0" by simp
  moreover have "exponent \<bar>x\<bar> = e" by (rule exponent_unique [OF assms])
  ultimately show ?thesis by (simp add: rd_def Let_def)
qed

lemma rd_exact:
  assumes x: "x = of_int n * 2 powi k" and n: "\<bar>n\<bar> < 2 ^ 53" and k: "- 1074 \<le> k"
  shows "rd x = x"
proof (cases "x = 0")
  case True
  then show ?thesis by simp
next
  case False
  then have pos: "0 < \<bar>x\<bar>" by simp
  let ?e = "exponent \<bar>x\<bar>"
  have ab: "\<bar>x\<bar> = of_int \<bar>n\<bar> * 2 powi k" by (simp add: x abs_mult)
  have le: "?e \<le> k + 52"
  proof (rule ccontr)
    assume "\<not> ?e \<le> k + 52"
    then have gt: "k + 53 \<le> ?e" by simp
    with k exponent_lower [OF pos] have "2 powi ?e \<le> \<bar>x\<bar>" by auto
    moreover from gt have "(2::real) powi (k + 53) \<le> 2 powi ?e"
      by (intro power_int_increasing) simp_all
    moreover have "\<bar>x\<bar> < 2 powi (k + 53)"
    proof -
      from n have "(of_int \<bar>n\<bar> :: real) < of_int (2 ^ 53)" by (simp only: of_int_less_iff)
      then have "of_int \<bar>n\<bar> * 2 powi k < of_int (2 ^ 53) * (2::real) powi k"
        by (rule mult_strict_right_mono) simp
      also have "of_int (2 ^ 53) * (2::real) powi k = 2 powi (k + 53)"
        by (simp add: power_int_add)
      finally show ?thesis by (simp only: ab)
    qed
    ultimately show False by linarith
  qed
  define j where "j = nat (k + 52 - ?e)"
  have j: "int j = k + 52 - ?e" using le by (simp add: j_def)
  have "x / 2 powi (?e - 52) = of_int n * 2 powi (k - (?e - 52))"
    by (simp add: x power_int_diff)
  also have "k - (?e - 52) = int j" using j by simp
  also have "of_int n * (2::real) powi (int j) = of_int (n * 2 ^ j)" by simp
  finally have q: "x / 2 powi (?e - 52) = of_int (n * 2 ^ j)" .
  have "rd x = of_int (n * 2 ^ j) * 2 powi (?e - 52)"
    using False by (simp add: rd_def Let_def q del: of_int_mult of_int_power)
  also have "\<dots> = x / 2 powi (?e - 52) * 2 powi (?e - 52)" by (simp only: q)
  also have "\<dots> = x" by simp
  finally show ?thesis .
qed

lemma rd_of_int: "\<bar>n\<bar> < 2 ^ 53 \<Longrightarrow> rd (of_int n) = of_int n"
  using rd_exact [of "of_int n" n 0] by simp

lemma rd_1 [simp]: "rd 1 = 1"
  using rd_of_int [of 1] by simp

lemma rd_numeral: "(numeral w :: int) < 2 ^ 53 \<Longrightarrow> rd (numeral w) = numeral w"
  using rd_of_int [of "numeral w"] by simp

lemma fl_finite: "\<bar>rd x\<bar> < 2 ^ 1024 \<Longrightarrow> fl x = Fin (rd x)"
  by (simp add: fl_def Let_def)

lemma fl_0 [simp]: "fl 0 = Fin 0"
  by (simp add: fl_def)

lemma fl_1 [simp]: "fl 1 = Fin 1"
  by (simp add: fl_def)

lemma fl_between:
  assumes "0 \<le> x" "x \<le> b" "rd b = b" "b < 2 ^ 1024"
  shows "fl x = Fin (rd x) \<and> 0 \<le> rd x \<and> rd x \<le> b"
proof -
  have lo: "0 \<le> rd x" by (rule rd_nonneg [OF assms(1)])
  have "rd x \<le> rd b" by (rule rd_mono [OF assms(1,2)])
  with assms(3) have hi: "rd x \<le> b" by simp
  with lo assms(4) have "\<bar>rd x\<bar> < 2 ^ 1024" by simp
  with lo hi show ?thesis by (simp add: fl_finite)
qed

section \<open>Evaluating the sample inputs\<close>

lemma weight_values:
  "rd (3/10) = 5404319552844595 / 18014398509481984"
  "rd (2/10) = 3602879701896397 / 18014398509481984"
  "rd (15/100) = 5404319552844595 / 36028797018963968"
proof -
  show "rd (3/10) = 5404319552844595 / 18014398509481984"
    using rd_eval [of "-2" "3/10"] by (simp add: rne_def)
  show "rd (2/10) = 3602879701896397 / 18014398509481984"
    using rd_eval [of "-3" "2/10"] by (simp add: rne_def)
  show "rd (15/100) = 5404319552844595 / 36028797018963968"
    using rd_eval [of "-3" "15/100"] by (simp add: rne_def)
qed

lemma weight_simps:
  "weight ''motion'' = Fin (5404319552844595 / 18014398509481984)"
  "weight ''edges'' = Fin (3602879701896397 / 18014398509481984)"
  "weight ''variance'' = Fin (3602879701896397 / 18014398509481984)"
  "weight ''texture'' = Fin (5404319552844595 / 36028797018963968)"
  "weight ''contours'' = Fin (5404319552844595 / 36028797018963968)"
  using weight_values by (simp_all add: weight_def weights_def)

lemma still_cv_simps:
  "cvtColor still_cv a = Inr gray_plane"
  "bg_apply still_cv bg a = (Inr zero_mask, bg)"
  by (simp_all add: still_cv_def)

lemma still_measure: "measure_signals still_cv gray_frame g zero_mask = Inr still_signals"
  by (simp add: measure_signals_def still_cv_def gray_frame_def zero_mask_def seq_def
      pixel_count_def shape_at_def np_true_divide_def np_sum_gt0_def np_var_def
      pixel_values_def still_signals_def)

lemma still_score: "score_signals still_signals = Inr (1, still_md)"
  by (simp add: score_signals_def combined_of_def combined_score_def weight_simps
      normalized_variance_def normalized_laplacian_def normalized_contours_def py_min_def
      int_true_divide_def busyness_of_def seq_def still_md_def still_signals_def)

lemma still_try: "try_body still_cv () gray_frame = (Inr (1, still_md), ())"
  by (simp add: try_body_def still_cv_simps still_measure still_score seq_def)

lemma failing_try: "try_body failing_cv () gray_frame = (Inl (Exception ''bad frame''), ())"
  by (simp add: try_body_def failing_cv_def)

lemma ready_monitor_fields:
  "cap (camera ready_monitor) = Some True" "released (camera ready_monitor) = 0"
  "interval ready_monitor = 5" "trace ready_monitor = []" "\<not> running ready_monitor"
  by (simp_all add: ready_monitor_def initialize_def initialize_camera_def new_monitor_def
      sample_args_def)

lemma no_frame_capture:
  "cap (camera m) = Some True \<Longrightarrow> capture_image (camera m) (cap_read no_frame_io) = Inr None"
  by (simp add: capture_image_def no_frame_io_def)

lemma interrupted_capture:
  "cap (camera m) = Some True \<Longrightarrow>
     capture_image (camera m) (cap_read interrupted_io) = Inr None"
  by (simp add: capture_image_def no_frame_io_def interrupted_io_def)

section \<open>The evaluator: score range, fallback and metadata\<close>

lemma busyness_of_range: "busyness_of c = Inr s \<Longrightarrow> 1 \<le> s \<and> s \<le> 10"
  by (auto simp: busyness_of_def seq_def split: sum.splits)

lemma score_signals_range: "score_signals sg = Inr (s, md) \<Longrightarrow> 1 \<le> s \<and> s \<le> 10"
  by (auto simp: score_signals_def seq_def split: sum.splits dest: busyness_of_range)

lemma try_body_range: "try_body cv bg img = (Inr (s, md), bg') \<Longrightarrow> 1 \<le> s \<and> s \<le> 10"
  by (auto simp: try_body_def seq_def split: sum.splits prod.splits dest: score_signals_range)

lemma busyness_of_unit:
  assumes "0 \<le> c" "c \<le> 1"
  shows "busyness_of (Fin c) = Inr \<lfloor>rd (rd (c * 9) + 1)\<rfloor>
         \<and> 1 \<le> rd (rd (c * 9) + 1) \<and> rd (rd (c * 9) + 1) \<le> 10"
proof -
  let ?p = "rd (c * 9)" and ?x = "rd (rd (c * 9) + 1)"
  have r9: "rd 9 = 9" and r10: "rd 10 = 10" by (simp_all add: rd_numeral)
  from assms have "0 \<le> c * 9" "c * 9 \<le> 9" by simp_all
  from fl_between [OF this r9]
  have p: "fl (c * 9) = Fin ?p" "0 \<le> ?p" "?p \<le> 9" by simp_all
  then have "0 \<le> ?p + 1" "?p + 1 \<le> 10" by simp_all
  from fl_between [OF this r10]
  have x: "fl (?p + 1) = Fin ?x" "?x \<le> 10" by simp_all
  from p(2) have "rd 1 \<le> ?x" by (intro rd_mono) simp_all
  then have lo: "1 \<le> ?x" by simp
  then have "1 \<le> \<lfloor>?x\<rfloor>" by simp
  moreover from x(2) have "\<lfloor>?x\<rfloor> \<le> 10" by (simp add: floor_le_iff)
  moreover have "busyness_of (Fin c) = Inr (max 1 (min 10 \<lfloor>?x\<rfloor>))"
    using lo by (simp add: busyness_of_def seq_def p(1) x(1))
  ultimately show ?thesis using lo x(2) by simp
qed

lemma truncation_bounds:
  assumes "0 \<le> c" "c \<le> 1"
  shows "\<lfloor>c * 9\<rfloor> + 1 \<le> \<lfloor>rd (rd (c * 9) + 1)\<rfloor> \<and> \<lfloor>rd (rd (c * 9) + 1)\<rfloor> \<le> \<lceil>c * 9\<rceil> + 1"
proof -
  let ?y = "c * 9" and ?p = "rd (c * 9)"
  from assms have y: "0 \<le> ?y" "?y \<le> 9" by simp_all
  have small: "\<And>n::int. 0 \<le> n \<Longrightarrow> n \<le> 10 \<Longrightarrow> rd (of_int n) = of_int n"
    by (rule rd_of_int) simp
  have fl0: "0 \<le> \<lfloor>?y\<rfloor>" "\<lfloor>?y\<rfloor> \<le> 9" using y by (simp_all add: floor_le_iff)
  have ce0: "0 \<le> \<lceil>?y\<rceil>" "\<lceil>?y\<rceil> \<le> 9" using y by (simp_all add: ceiling_le_iff)
  have p0: "0 \<le> ?p" by (rule rd_nonneg [OF y(1)])
  have "rd (of_int \<lfloor>?y\<rfloor>) \<le> ?p" using fl0 by (intro rd_mono) simp_all
  with small [of "\<lfloor>?y\<rfloor>"] fl0 have lo: "of_int \<lfloor>?y\<rfloor> \<le> ?p" by simp
  have "rd (of_int (\<lfloor>?y\<rfloor> + 1)) \<le> rd (?p + 1)"
    using fl0 lo by (intro rd_mono) simp_all
  with small [of "\<lfloor>?y\<rfloor> + 1"] fl0 have "of_int (\<lfloor>?y\<rfloor> + 1) \<le> rd (?p + 1)" by simp
  then have a: "\<lfloor>?y\<rfloor> + 1 \<le> \<lfloor>rd (?p + 1)\<rfloor>" by (simp only: le_floor_iff)
  have "?p \<le> rd (of_int \<lceil>?y\<rceil>)" using y by (intro rd_mono) simp_all
  with small [of "\<lceil>?y\<rceil>"] ce0 have hi: "?p \<le> of_int \<lceil>?y\<rceil>" by simp
  have "rd (?p + 1) \<le> rd (of_int (\<lceil>?y\<rceil> + 1))"
    using p0 hi by (intro rd_mono) simp_all
  with small [of "\<lceil>?y\<rceil> + 1"] ce0 have "rd (?p + 1) \<le> of_int (\<lceil>?y\<rceil> + 1)" by simp
  then have b: "\<lfloor>rd (?p + 1)\<rfloor> \<le> \<lceil>?y\<rceil> + 1" by (simp only: floor_le_iff)
  from a b show ?thesis by simp
qed

lemma rd_samples:
  "rd (27/4) = 27/4" "rd (31/4) = 31/4"
  "rd (54043195528445949/9007199254740992) = 6"
proof -
  show "rd (27/4) = 27/4" using rd_exact [of "27/4" 27 "-2"] by simp
  show "rd (31/4) = 31/4" using rd_exact [of "31/4" 31 "-2"] by simp
  show "rd (54043195528445949/9007199254740992) = 6"
    using rd_eval [of 2 "54043195528445949/9007199254740992"] by (simp add: rne_def)
qed

lemma busyness_three_quarters: "busyness_of (Fin (3/4)) = Inr 7"
  using busyness_of_unit [of "3/4"] by (simp add: rd_samples)

text \<open>
  C1. Whenever \<open>calculate_busyness_score\<close> returns (it raises only when an exception
  outside \<^verbatim>\<open>Exception\<close> is delivered), the score is an integer between 1 and 10, for
  every library, background model and pixel array.
\<close>

theorem score_in_range:
  "fst (calculate_busyness_score cv bg img) = Inr (s, md) \<Longrightarrow> 1 \<le> s \<and> s \<le> 10"
proof -
  assume ret: "fst (calculate_busyness_score cv bg img) = Inr (s, md)"
  obtain r bg' where body: "try_body cv bg img = (r, bg')"
    by (cases "try_body cv bg img")
  show ?thesis
  proof (cases r)
    case (Inl e)
    with ret body have "s = 5"
      by (simp add: calculate_busyness_score_def split: if_splits)
    then show ?thesis by simp
  next
    case (Inr p)
    with ret body have "try_body cv bg img = (Inr (s, md), bg')"
      by (simp add: calculate_busyness_score_def)
    then show ?thesis by (rule try_body_range)
  qed
qed

theorem score_in_range_witness:
  "fst (calculate_busyness_score still_cv () gray_frame) = Inr (1, still_md)
   \<and> (1::int) \<le> 1 \<and> (1::int) \<le> 10"
proof -
  have h: "fst (calculate_busyness_score still_cv () gray_frame) = Inr (1, still_md)"
    by (simp add: calculate_busyness_score_def still_try)
  from score_in_range [OF h] h show ?thesis by simp
qed

text \<open>
  C3. When a step of the computation inside the \<^verbatim>\<open>try\<close> block raises an
  \<^verbatim>\<open>Exception\<close>, \<open>calculate_busyness_score\<close> does not raise: it returns the score 5
  and a metadata record whose only entry is \<open>error\<close>, holding the message.
\<close>

theorem scoring_error_gives_fallback:
  "fst (try_body cv bg img) = Inl e \<Longrightarrow> is_Exception e \<Longrightarrow>
     fst (calculate_busyness_score cv bg img) = Inr (5, [(''error'', PStr (str_exc e))])"
  by (auto simp: calculate_busyness_score_def split: sum.splits prod.splits)

theorem scoring_error_gives_fallback_witness:
  "fst (try_body failing_cv () gray_frame) = Inl (Exception ''bad frame'')
   \<and> is_Exception (Exception ''bad frame'')
   \<and> fst (calculate_busyness_score failing_cv () gray_frame) =
       Inr (5, [(''error'', PStr ''bad frame'')])"
proof -
  have h: "fst (try_body failing_cv () gray_frame) = Inl (Exception ''bad frame'')"
    by (simp add: failing_try)
  have c: "is_Exception (Exception ''bad frame'')" by simp
  from scoring_error_gives_fallback [OF h c] h show ?thesis by simp
qed

text \<open>
  C4, as the specification states it, fails: the source truncates where the
  specification rounds. At a combined sum of 3/4, where every double operation is exact,
  the code returns 7 and the rounded formula gives 8.
\<close>

theorem rounded_score_counterexample:
  "(0::real) \<le> 3/4 \<and> (3/4::real) \<le> 1
   \<and> busyness_of (Fin (3/4)) = Inr 7 \<and> rounded_score (3/4) = 8"
  by (simp add: busyness_three_quarters rounded_score_def round_def)

text \<open>
  C4, amended. For every combined sum \<open>c\<close> in [0,1] the score is
  \<open>clamp(int(c * 9 + 1), 1, 10)\<close>: the double value of \<open>c * 9 + 1\<close>, product and sum
  each rounded to a double, is truncated, not rounded to the nearest integer. The score
  lies between \<open>floor(c * 9) + 1\<close> and \<open>ceil(c * 9) + 1\<close>, and it is
  \<open>floor(c * 9) + 1\<close> wherever the product and the sum are exact.
\<close>

theorem truncated_score:
  assumes "0 \<le> c" "c \<le> 1"
  shows "busyness_of (Fin c) = Inr (max 1 (min 10 \<lfloor>rd (rd (c * 9) + 1)\<rfloor>))
         \<and> \<lfloor>c * 9\<rfloor> + 1 \<le> \<lfloor>rd (rd (c * 9) + 1)\<rfloor>
         \<and> \<lfloor>rd (rd (c * 9) + 1)\<rfloor> \<le> \<lceil>c * 9\<rceil> + 1
         \<and> (rd (c * 9) = c * 9 \<and> rd (c * 9 + 1) = c * 9 + 1 \<longrightarrow>
              busyness_of (Fin c) = Inr (\<lfloor>c * 9\<rfloor> + 1))"
proof -
  note u = busyness_of_unit [OF assms]
  from u have fl: "1 \<le> \<lfloor>rd (rd (c * 9) + 1)\<rfloor>" "\<lfloor>rd (rd (c * 9) + 1)\<rfloor> \<le> 10"
    by (simp_all add: floor_le_iff)
  then have "busyness_of (Fin c) = Inr (max 1 (min 10 \<lfloor>rd (rd (c * 9) + 1)\<rfloor>))"
    using u by simp
  moreover have "rd (c * 9) = c * 9 \<and> rd (c * 9 + 1) = c * 9 + 1 \<longrightarrow>
              busyness_of (Fin c) = Inr (\<lfloor>c * 9\<rfloor> + 1)"
    using u by simp
  ultimately show ?thesis using truncation_bounds [OF assms] by simp
qed

theorem truncated_score_witness:
  "(0::real) \<le> 3/4 \<and> (3/4::real) \<le> 1 \<and> busyness_of (Fin (3/4)) = Inr 7
   \<and> busyness_of (Fin (6004799503160661/9007199254740992)) = Inr 7
   \<and> \<lfloor>6004799503160661/9007199254740992 * (9::real)\<rfloor> + 1 = 6"
proof -
  have a: "busyness_of (Fin (3/4)) = Inr 7"
    using truncated_score [of "3/4"] by (simp add: rd_samples)
  have r7: "rd 7 = 7" by (simp add: rd_numeral)
  have b: "busyness_of (Fin (6004799503160661/9007199254740992)) = Inr 7"
    using truncated_score [of "6004799503160661/9007199254740992"]
    by (simp add: rd_samples r7)
  from a b show ?thesis by simp
qed

text \<open>
  C8, as the specification states it, fails on the degraded path: the metadata returned
  after a scoring error holds the key \<open>error\<close> and none of the six metric keys.
\<close>

theorem degraded_metadata_counterexample:
  "fst (calculate_busyness_score failing_cv () gray_frame) =
     Inr (5, [(''error'', PStr ''bad frame'')])
   \<and> map_of [(''error'', PStr ''bad frame'')] ''motion_ratio'' = None
   \<and> map_of [(''error'', PStr ''bad frame'')] ''combined_raw'' = None"
  by (simp add: calculate_busyness_score_def failing_try)

text \<open>
  C8, amended. For every frame the \<^verbatim>\<open>try\<close> block scores without raising, the returned
  metadata holds exactly the five measured values before normalisation and the combined
  sum, under the keys \<open>motion_ratio\<close>, \<open>edge_ratio\<close>, \<open>color_variance\<close>,
  \<open>texture_variance\<close>, \<open>contour_count\<close> and \<open>combined_raw\<close>.
\<close>

theorem scored_metadata_complete:
  assumes "fst (try_body cv bg img) = Inr (s, md)"
  shows "fst (calculate_busyness_score cv bg img) = Inr (s, md) \<and>
         (\<exists>gray motion_mask sg.
            measure_signals cv img gray motion_mask = Inr sg \<and>
            md = [(''motion_ratio'', PFloat (motion_ratio sg)),
                  (''edge_ratio'', PFloat (edge_ratio sg)),
                  (''color_variance'', PFloat (color_variance sg)),
                  (''texture_variance'', PFloat (laplacian_var sg)),
                  (''contour_count'', PInt (contour_count sg)),
                  (''combined_raw'', PFloat (combined_of sg))])"
proof
  from assms show "fst (calculate_busyness_score cv bg img) = Inr (s, md)"
    by (cases "try_body cv bg img") (simp add: calculate_busyness_score_def)
next
  from assms obtain gray motion_mask sg where
    m: "measure_signals cv img gray motion_mask = Inr sg" and
    sc: "score_signals sg = Inr (s, md)"
    by (auto simp: try_body_def seq_def split: sum.splits prod.splits)
  from sc have "md = [(''motion_ratio'', PFloat (motion_ratio sg)),
                  (''edge_ratio'', PFloat (edge_ratio sg)),
                  (''color_variance'', PFloat (color_variance sg)),
                  (''texture_variance'', PFloat (laplacian_var sg)),
                  (''contour_count'', PInt (contour_count sg)),
                  (''combined_raw'', PFloat (combined_of sg))]"
    by (auto simp: score_signals_def seq_def split: sum.splits)
  with m show "\<exists>gray motion_mask sg.
            measure_signals cv img gray motion_mask = Inr sg \<and>
            md = [(''motion_ratio'', PFloat (motion_ratio sg)),
                  (''edge_ratio'', PFloat (edge_ratio sg)),
                  (''color_variance'', PFloat (color_variance sg)),
                  (''texture_variance'', PFloat (laplacian_var sg)),
                  (''contour_count'', PInt (contour_count sg)),
                  (''combined_raw'', PFloat (combined_of sg))]"
    by blast
qed

theorem scored_metadata_complete_witness:
  "fst (try_body still_cv () gray_frame) = Inr (1, still_md)
   \<and> fst (calculate_busyness_score still_cv () gray_frame) = Inr (1, still_md)
   \<and> map fst still_md =
       [''motion_ratio'', ''edge_ratio'', ''color_variance'', ''texture_variance'',
        ''contour_count'', ''combined_raw'']"
proof -
  have h: "fst (try_body still_cv () gray_frame) = Inr (1, still_md)"
    by (simp add: still_try)
  from scored_metadata_complete [OF h] h show ?thesis
    by (auto simp: still_md_def)
qed

lemma weight_exact:
  "rd (5404319552844595 / 18014398509481984) = 5404319552844595 / 18014398509481984"
  "rd (3602879701896397 / 18014398509481984) = 3602879701896397 / 18014398509481984"
  "rd (5404319552844595 / 36028797018963968) = 5404319552844595 / 36028797018963968"
proof -
  show "rd (5404319552844595 / 18014398509481984) = 5404319552844595 / 18014398509481984"
    using rd_exact [of "5404319552844595 / 18014398509481984" 5404319552844595 "-54"]
    by simp
  show "rd (3602879701896397 / 18014398509481984) = 3602879701896397 / 18014398509481984"
    using rd_exact [of "3602879701896397 / 18014398509481984" 3602879701896397 "-54"]
    by simp
  show "rd (5404319552844595 / 36028797018963968) = 5404319552844595 / 36028797018963968"
    using rd_exact [of "5404319552844595 / 36028797018963968" 5404319552844595 "-55"]
    by simp
qed

text \<open>The partial sums of the five weights, each rounded as the source adds them.\<close>

lemma weight_sums:
  "rd (5404319552844595 / 18014398509481984 + 3602879701896397 / 18014398509481984) = 1/2"
  "rd (1/2 + 3602879701896397 / 18014398509481984) = 3152519739159347 / 4503599627370496"
  "rd (3152519739159347 / 4503599627370496 + 5404319552844595 / 36028797018963968) =
     7656119366529843 / 9007199254740992"
  "rd (7656119366529843 / 9007199254740992 + 5404319552844595 / 36028797018963968) = 1"
proof -
  show "rd (5404319552844595 / 18014398509481984 + 3602879701896397 / 18014398509481984) = 1/2"
    using rd_eval [of "-1" "5404319552844595 / 18014398509481984 + 3602879701896397 / 18014398509481984"]
    by (simp add: rne_def)
  show "rd (1/2 + 3602879701896397 / 18014398509481984) = 3152519739159347 / 4503599627370496"
    using rd_eval [of "-1" "1/2 + 3602879701896397 / 18014398509481984"]
    by (simp add: rne_def)
  show "rd (3152519739159347 / 4503599627370496 + 5404319552844595 / 36028797018963968) =
     7656119366529843 / 9007199254740992"
    using rd_eval [of "-1" "3152519739159347 / 4503599627370496 + 5404319552844595 / 36028797018963968"]
    by (simp add: rne_def)
  show "rd (7656119366529843 / 9007199254740992 + 5404319552844595 / 36028797018963968) = 1"
    using rd_eval [of "-1" "7656119366529843 / 9007199254740992 + 5404319552844595 / 36028797018963968"]
    by (simp add: rne_def)
qed

lemma fmul_weight:
  assumes "0 \<le> w" "w \<le> 1" "rd w = w" "0 \<le> x" "x \<le> 1"
  shows "\<exists>p. fmul (Fin w) (Fin x) = Fin p \<and> 0 \<le> p \<and> p \<le> w"
proof -
  from assms have "0 \<le> w * x" "w * x \<le> w"
    by (simp_all add: mult_left_le)
  moreover from assms(2) have "w < 2 ^ 1024" by (rule le_less_trans) simp
  ultimately show ?thesis using fl_between [of "w * x" w] assms(3) by simp
qed

lemma fadd_below:
  assumes "0 \<le> a" "a \<le> A" "0 \<le> b" "b \<le> B" "rd (A + B) = S" "S \<le> 1"
  shows "\<exists>s. fadd (Fin a) (Fin b) = Fin s \<and> 0 \<le> s \<and> s \<le> S"
proof -
  from assms have ab: "0 \<le> a + b" "a + b \<le> A + B" by simp_all
  have lo: "0 \<le> rd (a + b)" by (rule rd_nonneg [OF ab(1)])
  have "rd (a + b) \<le> rd (A + B)" by (rule rd_mono [OF ab])
  with assms(5) have hi: "rd (a + b) \<le> S" by simp
  with lo assms(6) have "\<bar>rd (a + b)\<bar> \<le> 1" by simp
  then have "\<bar>rd (a + b)\<bar> < 2 ^ 1024" by (rule le_less_trans) simp
  with lo hi show ?thesis by (simp add: fl_finite)
qed

lemma combined_score_unit:
  assumes "0 \<le> m" "m \<le> 1" "0 \<le> e" "e \<le> 1" "0 \<le> v" "v \<le> 1"
    and "0 \<le> t" "t \<le> 1" "0 \<le> c" "c \<le> 1"
  shows "\<exists>r. combined_score (Fin m) (Fin e) (Fin v) (Fin t) (Fin c) = Fin r \<and> 0 \<le> r \<and> r \<le> 1"
proof -
  let ?w3 = "5404319552844595 / 18014398509481984 :: real"
  let ?w2 = "3602879701896397 / 18014398509481984 :: real"
  let ?w15 = "5404319552844595 / 36028797018963968 :: real"
  obtain p1 where p1: "fmul (Fin ?w3) (Fin m) = Fin p1" "0 \<le> p1" "p1 \<le> ?w3"
    using fmul_weight [of ?w3 m] assms weight_exact by auto
  obtain p2 where p2: "fmul (Fin ?w2) (Fin e) = Fin p2" "0 \<le> p2" "p2 \<le> ?w2"
    using fmul_weight [of ?w2 e] assms weight_exact by auto
  obtain p3 where p3: "fmul (Fin ?w2) (Fin v) = Fin p3" "0 \<le> p3" "p3 \<le> ?w2"
    using fmul_weight [of ?w2 v] assms weight_exact by auto
  obtain p4 where p4: "fmul (Fin ?w15) (Fin t) = Fin p4" "0 \<le> p4" "p4 \<le> ?w15"
    using fmul_weight [of ?w15 t] assms weight_exact by auto
  obtain p5 where p5: "fmul (Fin ?w15) (Fin c) = Fin p5" "0 \<le> p5" "p5 \<le> ?w15"
    using fmul_weight [of ?w15 c] assms weight_exact by auto
  obtain s2 where s2: "fadd (Fin p1) (Fin p2) = Fin s2" "0 \<le> s2" "s2 \<le> 1/2"
    using fadd_below [OF p1(2,3) p2(2,3) weight_sums(1)] by auto
  obtain s3 where s3: "fadd (Fin s2) (Fin p3) = Fin s3" "0 \<le> s3"
      "s3 \<le> 3152519739159347 / 4503599627370496"
    using fadd_below [OF s2(2,3) p3(2,3) weight_sums(2)] by auto
  obtain s4 where s4: "fadd (Fin s3) (Fin p4) = Fin s4" "0 \<le> s4"
      "s4 \<le> 7656119366529843 / 9007199254740992"
    using fadd_below [OF s3(2,3) p4(2,3) weight_sums(3)] by auto
  obtain s5 where s5: "fadd (Fin s4) (Fin p5) = Fin s5" "0 \<le> s5" "s5 \<le> 1"
    using fadd_below [OF s4(2,3) p5(2,3) weight_sums(4)] by auto
  have "combined_score (Fin m) (Fin e) (Fin v) (Fin t) (Fin c) = Fin s5"
    by (simp only: combined_score_def weight_simps p1 p2 p3 p4 p5 s2 s3 s4 s5)
  with s5 show ?thesis by blast
qed

lemma combined_score_ones: "combined_score (Fin 1) (Fin 1) (Fin 1) (Fin 1) (Fin 1) = Fin 1"
proof -
  let ?w3 = "5404319552844595 / 18014398509481984 :: real"
  let ?w2 = "3602879701896397 / 18014398509481984 :: real"
  let ?w15 = "5404319552844595 / 36028797018963968 :: real"
  have f: "\<And>x::real. 0 \<le> x \<Longrightarrow> x \<le> 1 \<Longrightarrow> fl x = Fin (rd x)"
    using fl_between [of _ 1] by simp
  have p1: "fl (?w3 * 1) = Fin ?w3" using f [of "?w3 * 1"] weight_exact by simp
  have p2: "fl (?w2 * 1) = Fin ?w2" using f [of "?w2 * 1"] weight_exact by simp
  have p4: "fl (?w15 * 1) = Fin ?w15" using f [of "?w15 * 1"] weight_exact by simp
  have s2: "fl (?w3 + ?w2) = Fin (1/2)"
    using f [of "?w3 + ?w2"] weight_sums(1) by simp
  have s3: "fl (1/2 + ?w2) = Fin (3152519739159347 / 4503599627370496)"
    using f [of "1/2 + ?w2"] weight_sums(2) by simp
  have s4: "fl (3152519739159347 / 4503599627370496 + ?w15) =
              Fin (7656119366529843 / 9007199254740992)"
    using f [of "3152519739159347 / 4503599627370496 + ?w15"] weight_sums(3) by simp
  have s5: "fl (7656119366529843 / 9007199254740992 + ?w15) = Fin 1"
    using f [of "7656119366529843 / 9007199254740992 + ?w15"] weight_sums(4) by simp
  show ?thesis
    by (simp only: combined_score_def weight_simps fmul.simps fadd.simps p1 p2 p4 s2 s3 s4 s5)
qed

text \<open>
  C9. The weights are 0.30, 0.20, 0.20, 0.15 and 0.15, they sum to 1, and the weighted
  sum of five normalised inputs in [0,1], computed in doubles as the source computes it,
  is a finite value in [0,1]; at five inputs of 1 it is exactly 1.
\<close>

theorem weights_convex:
  assumes "0 \<le> m" "m \<le> 1" "0 \<le> e" "e \<le> 1" "0 \<le> v" "v \<le> 1"
    and "0 \<le> t" "t \<le> 1" "0 \<le> c" "c \<le> 1"
  shows "weights = [(''motion'', 3/10), (''edges'', 2/10), (''variance'', 2/10),
                    (''texture'', 15/100), (''contours'', 15/100)]
         \<and> sum_list (map snd weights) = 1
         \<and> (\<exists>r. combined_score (Fin m) (Fin e) (Fin v) (Fin t) (Fin c) = Fin r
                \<and> 0 \<le> r \<and> r \<le> 1)"
proof -
  have w: "weights = [(''motion'', 3/10), (''edges'', 2/10), (''variance'', 2/10),
                    (''texture'', 15/100), (''contours'', 15/100)]"
    by (simp add: weights_def)
  have s: "sum_list (map snd weights) = 1" by (simp add: weights_def)
  from w s combined_score_unit [OF assms] show ?thesis by blast
qed

theorem weights_convex_witness:
  "sum_list (map snd weights) = 1 \<and> combined_score (Fin 1) (Fin 1) (Fin 1) (Fin 1) (Fin 1) = Fin 1"
proof -
  from weights_convex [of 1 1 1 1 1]
  have "sum_list (map snd weights) = 1" by simp
  then show ?thesis by (simp add: combined_score_ones)
qed

section \<open>The upload payload\<close>

text \<open>
  C5. For every score, metadata, timestamp, notes and camera name the payload has eleven
  parameters, as many as the \<^verbatim>\<open>INSERT\<close> statement names columns, in the order
  timestamp, score, the six metrics read from the metadata under the names of columns
  three to eight, the serialised metadata, notes, camera name.
\<close>

theorem upload_params_match_columns:
  "upload_params dumps s md ts n c =
     [PStr ts, PInt s] @ map (\<lambda>k. dict_get md k (PInt 0)) (take 6 (drop 2 insert_columns))
       @ [PStr (dumps md), PStr n, PStr c]
   \<and> length (upload_params dumps s md ts n c) = 11
   \<and> insert_columns =
       [''timestamp'', ''score'', ''motion_ratio'', ''edge_ratio'', ''color_variance'',
        ''texture_variance'', ''contour_count'', ''combined_raw'', ''metadata'', ''notes'',
        ''camera_name'']"
  by (simp add: upload_params_def insert_columns_def)

text \<open>
  C10. For the metadata of a degraded result, which holds only the key \<open>error\<close>, the
  payload still has eleven parameters and each of the six metrics is the default 0.
\<close>

theorem degraded_upload_defaults:
  "upload_params dumps s [(''error'', PStr msg)] ts n c =
     [PStr ts, PInt s, PInt 0, PInt 0, PInt 0, PInt 0, PInt 0, PInt 0,
      PStr (dumps [(''error'', PStr msg)]), PStr n, PStr c]
   \<and> length (upload_params dumps s [(''error'', PStr msg)] ts n c) = 11"
  by (simp add: upload_params_def dict_get_def)

section \<open>The monitor loop\<close>

subsection \<open>What a cycle changes\<close>

lemma capture_and_analyze_fields:
  "capture_and_analyze cv m io = (r, m1) \<Longrightarrow>
     camera m1 = camera m \<and> interval m1 = interval m \<and> running m1 = running m \<and>
     trace m1 = trace m"
  by (auto simp: capture_and_analyze_def Let_def
      split: sum.splits option.splits prod.splits if_splits)

lemma run_once_fields:
  "run_once cv dumps m io = (r, m1) \<Longrightarrow>
     camera m1 = camera m \<and> interval m1 = interval m \<and> running m1 = running m \<and>
     trace m1 = trace m @ (case r of Inl e \<Rightarrow> [] | Inr ok \<Rightarrow> [Cycle ok])"
  by (auto simp: run_once_def Let_def
      split: sum.splits option.splits prod.splits if_splits
      dest!: capture_and_analyze_fields)

lemma loop_body_fields:
  "loop_body cv dumps m io = (r, m1) \<Longrightarrow>
     camera m1 = camera m \<and> interval m1 = interval m \<and> running m1 = running m"
  by (auto simp: loop_body_def split: sum.splits prod.splits dest!: run_once_fields)

lemma while_loop_fields:
  "while_loop cv dumps m ios = (r, m1) \<Longrightarrow>
     camera m1 = camera m \<and> interval m1 = interval m \<and> running m1 = running m"
proof (induction ios arbitrary: m)
  case Nil
  then show ?case by (auto split: if_splits)
next
  case (Cons io ios)
  show ?case
  proof (cases "running m")
    case False
    with Cons.prems show ?thesis by auto
  next
    case True
    obtain b m2 where body: "loop_body cv dumps m io = (b, m2)"
      by (cases "loop_body cv dumps m io")
    note keep = loop_body_fields [OF body]
    show ?thesis
    proof (cases b)
      case (Inl e)
      with True body Cons.prems keep show ?thesis by auto
    next
      case (Inr u)
      with True body Cons.prems have "while_loop cv dumps m2 ios = (r, m1)" by simp
      from Cons.IH [OF this] keep show ?thesis by simp
    qed
  qed
qed

text \<open>Passes that leave the loop running can be followed by further passes.\<close>

lemma while_loop_append:
  "while_loop cv dumps m pre = (None, m1) \<Longrightarrow>
     while_loop cv dumps m (pre @ suffix) = while_loop cv dumps m1 suffix"
proof (induction pre arbitrary: m)
  case Nil
  then show ?case by (auto split: if_splits)
next
  case (Cons io pre)
  then show ?case
    by (auto split: if_splits sum.splits prod.splits)
qed

lemma cleanup_released:
  "cap (camera m) \<noteq> None \<Longrightarrow>
     released (camera (cleanup m)) = released (camera m) + 1 \<and>
     cap (camera (cleanup m)) = Some False \<and> \<not> running (cleanup m)"
  by (auto simp: cleanup_def release_camera_def split: option.splits)

subsection \<open>The failures a cycle absorbs\<close>

lemma upload_failures:
  "send (upload_params dumps s md ts n c) = Inl e \<Longrightarrow> is_Exception e \<Longrightarrow>
     upload_busyness_data send dumps s md ts n c = Inr False"
  "send (upload_params dumps s md ts n c) = Inr resp \<Longrightarrow> status_code resp \<noteq> 200 \<Longrightarrow>
     upload_busyness_data send dumps s md ts n c = Inr False"
  "send (upload_params dumps s md ts n c) = Inr resp \<Longrightarrow> status_code resp = 200 \<Longrightarrow>
   json_success resp = Inr False \<Longrightarrow>
     upload_busyness_data send dumps s md ts n c = Inr False"
  by (simp_all add: upload_busyness_data_def seq_def)

lemma no_frame_marks_cycle_failed:
  "capture_image (camera m) (cap_read io) = Inr None \<Longrightarrow>
     fst (run_once cv dumps m io) = Inr False"
  by (simp add: run_once_def capture_and_analyze_def)

lemma failed_upload_marks_cycle_failed:
  "capture_and_analyze cv m io = (Inr (Some d), m1) \<Longrightarrow>
   upload_data dumps m1 io d = Inr False \<Longrightarrow>
     fst (run_once cv dumps m io) = Inr False"
  by (simp add: run_once_def)

lemma scoring_error_still_uploads:
  assumes "capture_image (camera m) (cap_read io) = Inr (Some frame)"
    and "fst (try_body cv (evaluator m) frame) = Inl e" and "is_Exception e"
  shows "fst (capture_and_analyze cv m io) =
           Inr (Some \<lparr>timestamp = now io, score = 5,
                      metadata = [(''error'', PStr (str_exc e))]\<rparr>)"
proof -
  obtain bg' where "try_body cv (evaluator m) frame = (Inl e, bg')"
    using assms(2) by (cases "try_body cv (evaluator m) frame") simp
  with assms(1,3) show ?thesis
    by (simp add: capture_and_analyze_def calculate_busyness_score_def)
qed

lemma run_once_raises_no_Exception:
  "fst (run_once cv dumps m io) = Inl e \<Longrightarrow> \<not> is_Exception e"
  by (auto simp: run_once_def Let_def split: sum.splits option.splits prod.splits if_splits)

subsection \<open>The sample passes\<close>

lemma no_frame_run_once:
  "cap (camera m) = Some True \<Longrightarrow>
     run_once cv dumps m no_frame_io = (Inr False, m\<lparr>trace := trace m @ [Cycle False]\<rparr>)"
  by (simp add: run_once_def capture_and_analyze_def no_frame_capture)

lemma sleep_returns:
  "0 \<le> secs \<Longrightarrow> secs \<le> 9223372036 \<Longrightarrow> time_sleep secs None = Inr ()"
  by (simp add: time_sleep_def)

lemma no_frame_quiet: "sleep_raises no_frame_io = None"
  by (simp add: no_frame_io_def)

lemma no_frame_loop_body:
  "cap (camera m) = Some True \<Longrightarrow> 0 \<le> interval m \<Longrightarrow> interval m \<le> 9223372036 \<Longrightarrow>
     loop_body cv dumps m no_frame_io =
       (Inr (), m\<lparr>trace := trace m @ [Cycle False, Slept (interval m)]\<rparr>)"
  by (simp add: loop_body_def no_frame_run_once sleep_returns no_frame_quiet)

lemma negative_loop_body:
  "cap (camera m) = Some True \<Longrightarrow> interval m = - 1 \<Longrightarrow>
     loop_body cv dumps m no_frame_io =
       (Inl (Exception ''sleep length must be non-negative''),
        m\<lparr>trace := trace m @ [Cycle False]\<rparr>)"
  by (simp add: loop_body_def no_frame_run_once time_sleep_def)

lemma interrupted_loop_body:
  "cap (camera m) = Some True \<Longrightarrow> 0 \<le> interval m \<Longrightarrow> interval m \<le> 9223372036 \<Longrightarrow>
     loop_body cv dumps m interrupted_io =
       (Inl KeyboardInterrupt, m\<lparr>trace := trace m @ [Cycle False]\<rparr>)"
  by (simp add: loop_body_def run_once_def capture_and_analyze_def interrupted_capture
      time_sleep_def)
    (simp add: interrupted_io_def)

lemma ready_initialize:
  "initialize (new_monitor () sample_args) (Inr True) = (Inr True, ready_monitor)"
  by (simp add: ready_monitor_def initialize_def initialize_camera_def)

lemma negative_initialize:
  "initialize (new_monitor () negative_args) (Inr True) =
     (Inr True, ready_monitor\<lparr>interval := - 1\<rparr>)"
  by (simp add: ready_monitor_def initialize_def initialize_camera_def new_monitor_def
      negative_args_def sample_args_def)

lemma negative_run:
  "main still_cv plain_dumps () negative_args (Inr True) (no_frame_io # rest) =
     (Some (Inr 0),
      cleanup (cleanup (ready_monitor\<lparr>interval := - 1, running := True,
                                       trace := [Cycle False]\<rparr>)))"
  by (simp add: main_def negative_initialize main_try_def run_continuous_def
      negative_loop_body ready_monitor_fields)
    (simp add: negative_args_def sample_args_def)

lemma interrupted_run:
  "main still_cv plain_dumps () sample_args (Inr True) (interrupted_io # rest) =
     (Some (Inr 0),
      cleanup (cleanup (ready_monitor\<lparr>running := True, trace := [Cycle False]\<rparr>)))"
  by (simp add: main_def ready_initialize main_try_def run_continuous_def
      interrupted_loop_body ready_monitor_fields)
    (simp add: sample_args_def)

subsection \<open>Resilience of the loop\<close>

text \<open>
  C2, as the specification states it, fails for an interval that \<^verbatim>\<open>time.sleep\<close>
  refuses. With \<^verbatim>\<open>--interval -1\<close> the first cycle fails because the camera delivers
  no frame, no exception is delivered from outside, and the sleep that follows raises:
  the loop ends with one failed cycle in the trace, the second pass never runs and no
  sleep has taken place. It fails as well, at the interval 5, when an interrupt is
  delivered during the sleep after the failed cycle.
\<close>

theorem refused_interval_counterexample:
  "capture_image (camera (ready_monitor\<lparr>interval := - 1\<rparr>)) (cap_read no_frame_io) = Inr None
   \<and> sleep_raises no_frame_io = None
   \<and> fst (main still_cv plain_dumps () negative_args (Inr True) [no_frame_io, no_frame_io]) =
       Some (Inr 0)
   \<and> trace (snd (main still_cv plain_dumps () negative_args (Inr True)
          [no_frame_io, no_frame_io])) = [Cycle False]
   \<and> capture_image (camera ready_monitor) (cap_read interrupted_io) = Inr None
   \<and> fst (main still_cv plain_dumps () sample_args (Inr True) [interrupted_io, no_frame_io]) =
       Some (Inr 0)
   \<and> trace (snd (main still_cv plain_dumps () sample_args (Inr True)
          [interrupted_io, no_frame_io])) = [Cycle False]"
  by (simp add: negative_run interrupted_run cleanup_def no_frame_capture
      interrupted_capture ready_monitor_fields no_frame_quiet)

text \<open>
  C2, amended. In the continuous loop, when the interval is one \<^verbatim>\<open>time.sleep\<close> accepts
  (from 0 to 9223372036 seconds) and no exception is delivered during the sleep, the
  failure of a single sub-step of the cycle never ends the loop. The sub-step is the
  capture returning no frame, or the scoring raising an \<^verbatim>\<open>Exception\<close> (the fallback
  result is then uploaded), or the upload failing. In each case \<open>run_once\<close> returns,
  exactly one sleep of the configured interval follows, and the loop is back at its
  head, still running, with the remaining passes ahead of it and cleanup not called.
\<close>

theorem failed_cycle_keeps_loop_running:
  assumes run: "running m"
    and iv: "0 \<le> interval m" "interval m \<le> 9223372036"
    and quiet: "sleep_raises io = None"
    and fail:
      "capture_image (camera m) (cap_read io) = Inr None
       \<or> (capture_image (camera m) (cap_read io) = Inr (Some frame)
          \<and> try_body cv (evaluator m) frame = (Inl e, bg')
          \<and> is_Exception e
          \<and> upload_busyness_data (post io) dumps 5 [(''error'', PStr (str_exc e))] (now io)
               (session_notes m) (camera_name m) = Inr uploaded)
       \<or> (capture_image (camera m) (cap_read io) = Inr (Some frame)
          \<and> calculate_busyness_score cv (evaluator m) frame = (Inr (s, md), bg')
          \<and> upload_busyness_data (post io) dumps s md (now io)
               (session_notes m) (camera_name m) = Inr False)"
  shows "\<exists>ok m1. run_once cv dumps m io = (Inr ok, m1)
           \<and> while_loop cv dumps m (io # rest) =
               while_loop cv dumps
                 (m1\<lparr>trace := trace m @ [Cycle ok, Slept (interval m)]\<rparr>) rest
           \<and> running m1 \<and> released (camera m1) = released (camera m)"
proof -
  from fail have "\<exists>ok m1. run_once cv dumps m io = (Inr ok, m1)"
  proof (elim disjE conjE)
    assume "capture_image (camera m) (cap_read io) = Inr None"
    then show ?thesis by (auto simp: run_once_def capture_and_analyze_def)
  next
    assume "capture_image (camera m) (cap_read io) = Inr (Some frame)"
      "try_body cv (evaluator m) frame = (Inl e, bg')" "is_Exception e"
      "upload_busyness_data (post io) dumps 5 [(''error'', PStr (str_exc e))] (now io)
         (session_notes m) (camera_name m) = Inr uploaded"
    then show ?thesis
      by (auto simp: run_once_def capture_and_analyze_def calculate_busyness_score_def
          upload_data_def)
  next
    assume "capture_image (camera m) (cap_read io) = Inr (Some frame)"
      "calculate_busyness_score cv (evaluator m) frame = (Inr (s, md), bg')"
      "upload_busyness_data (post io) dumps s md (now io)
         (session_notes m) (camera_name m) = Inr False"
    then show ?thesis
      by (auto simp: run_once_def capture_and_analyze_def upload_data_def)
  qed
  then obtain ok m1 where ro: "run_once cv dumps m io = (Inr ok, m1)" by blast
  note keep = run_once_fields [OF ro]
  from iv quiet keep have "time_sleep (interval m1) (sleep_raises io) = Inr ()"
    by (simp add: sleep_returns)
  with run ro keep
  have "while_loop cv dumps m (io # rest) =
          while_loop cv dumps (m1\<lparr>trace := trace m @ [Cycle ok, Slept (interval m)]\<rparr>) rest"
    by (simp add: loop_body_def)
  with ro keep run show ?thesis by auto
qed

theorem failed_cycle_keeps_loop_running_witness:
  "fst (while_loop still_cv plain_dumps (ready_monitor\<lparr>running := True\<rparr>)
          [no_frame_io, no_frame_io]) = None
   \<and> trace (snd (while_loop still_cv plain_dumps (ready_monitor\<lparr>running := True\<rparr>)
          [no_frame_io, no_frame_io])) =
       [Cycle False, Slept 5, Cycle False, Slept 5]"
proof -
  let ?m = "ready_monitor\<lparr>running := True\<rparr>"
  have h1: "running ?m" by simp
  have h2: "0 \<le> interval ?m" "interval ?m \<le> 9223372036"
    by (simp_all add: ready_monitor_fields)
  have h3: "sleep_raises no_frame_io = None" by (simp add: no_frame_io_def)
  have h4: "capture_image (camera ?m) (cap_read no_frame_io) = Inr None
       \<or> (capture_image (camera ?m) (cap_read no_frame_io) = Inr (Some gray_frame)
          \<and> try_body still_cv (evaluator ?m) gray_frame = (Inl KeyboardInterrupt, ())
          \<and> is_Exception KeyboardInterrupt
          \<and> upload_busyness_data (post no_frame_io) plain_dumps 5
               [(''error'', PStr (str_exc KeyboardInterrupt))] (now no_frame_io)
               (session_notes ?m) (camera_name ?m) = Inr False)
       \<or> (capture_image (camera ?m) (cap_read no_frame_io) = Inr (Some gray_frame)
          \<and> calculate_busyness_score still_cv (evaluator ?m) gray_frame =
               (Inr (1, still_md), ())
          \<and> upload_busyness_data (post no_frame_io) plain_dumps 1 still_md (now no_frame_io)
               (session_notes ?m) (camera_name ?m) = Inr False)"
    by (simp add: no_frame_capture ready_monitor_fields)
  from failed_cycle_keeps_loop_running [OF h1 h2 h3 h4, where rest = "[no_frame_io]"]
  show ?thesis
    by (auto simp: no_frame_run_once no_frame_loop_body ready_monitor_fields)
qed

subsection \<open>Cleanup\<close>

lemma run_continuous_released:
  assumes "run_continuous cv dumps m ios = (Some r, m')" and "cap (camera m) \<noteq> None"
  shows "released (camera m') = released (camera m) + 1 \<and> cap (camera m') = Some False
         \<and> \<not> running m'"
proof -
  obtain w m1 where loop: "while_loop cv dumps (m\<lparr>running := True\<rparr>) ios = (w, m1)"
    by (cases "while_loop cv dumps (m\<lparr>running := True\<rparr>) ios")
  from while_loop_fields [OF loop] have cam: "camera m1 = camera m" by simp
  from assms(1) loop have "m' = cleanup m1"
    by (auto simp: run_continuous_def split: option.splits sum.splits)
  with cam assms(2) cleanup_released [of m1] show ?thesis by simp
qed

lemma main_try_released:
  assumes "main_try cv dumps once m ios = (Some r, m')" and "cap (camera m) \<noteq> None"
  shows "released (camera m') = released (camera m) + (if once then 1 else 2)"
proof (cases once)
  case True
  with assms(1) obtain io rest b m1 where
    "ios = io # rest" and ro: "run_once cv dumps m io = (b, m1)" and "m' = cleanup m1"
    by (auto simp: main_try_def Let_def split: list.splits sum.splits prod.splits if_splits)
  with run_once_fields [OF ro] assms(2) cleanup_released [of m1] True show ?thesis by simp
next
  case False
  with assms(1) obtain b m1 where
    rc: "run_continuous cv dumps m ios = (Some b, m1)" and "m' = cleanup m1"
    by (auto simp: main_try_def Let_def split: option.splits sum.splits prod.splits if_splits)
  with run_continuous_released [OF rc assms(2)] cleanup_released [of m1] False
  show ?thesis by simp
qed

text \<open>
  C6, as the specification states it, fails in continuous mode: a run that an interrupt
  stops during the first sleep releases the frame source twice, once in
  \<open>run_continuous\<close> and once more in \<open>main\<close>.
\<close>

theorem cleanup_once_counterexample:
  "fst (main still_cv plain_dumps () sample_args (Inr True) [interrupted_io]) = Some (Inr 0)
   \<and> released (camera (snd (main still_cv plain_dumps () sample_args (Inr True)
          [interrupted_io]))) = 2"
  by (simp add: interrupted_run cleanup_def release_camera_def ready_monitor_fields)

text \<open>
  C6, amended. Whenever a monitor whose camera was opened stops, cleanup has released
  the frame source: exactly once in run-once mode, and exactly twice in continuous mode,
  where \<open>run_continuous\<close> and \<open>main\<close> each call it.
\<close>

theorem cleanup_count:
  "main cv dumps bg0 a (Inr True) ios = (Some r, m) \<Longrightarrow>
     released (camera m) = (if arg_once a then 1 else 2)"
proof -
  assume ret: "main cv dumps bg0 a (Inr True) ios = (Some r, m)"
  define m0 where "m0 = snd (initialize (new_monitor bg0 a) (Inr True))"
  have init: "initialize (new_monitor bg0 a) (Inr True) = (Inr True, m0)"
    by (simp add: m0_def initialize_def initialize_camera_def)
  have m0: "cap (camera m0) \<noteq> None" "released (camera m0) = 0"
    by (simp_all add: m0_def initialize_def initialize_camera_def new_monitor_def)
  from ret init have "main_try cv dumps (arg_once a) m0 ios = (Some r, m)"
    by (simp add: main_def)
  from main_try_released [OF this m0(1)] m0(2) show ?thesis by simp
qed

theorem cleanup_count_witness:
  "main still_cv plain_dumps () (sample_args\<lparr>arg_once := True\<rparr>) (Inr True) [no_frame_io] =
     (Some (Inr 1),
      snd (main still_cv plain_dumps () (sample_args\<lparr>arg_once := True\<rparr>) (Inr True)
             [no_frame_io]))
   \<and> released (camera (snd (main still_cv plain_dumps () (sample_args\<lparr>arg_once := True\<rparr>)
          (Inr True) [no_frame_io]))) = 1"
proof -
  let ?a = "sample_args\<lparr>arg_once := True\<rparr>"
  let ?run = "main still_cv plain_dumps () ?a (Inr True) [no_frame_io]"
  have "fst ?run = Some (Inr 1)"
    by (simp add: main_def initialize_def initialize_camera_def new_monitor_def
        main_try_def no_frame_run_once)
  then have h: "?run = (Some (Inr 1), snd ?run)"
    by (simp add: prod_eq_iff)
  from cleanup_count [OF h] h show ?thesis by simp
qed

subsection \<open>Errors that leave the cycle\<close>

text \<open>
  An error that leaves the body of the loop, after any number of completed passes, ends
  the loop at that pass whatever passes were still to come, and cleanup runs. The exit
  status is 0 when \<open>run_continuous\<close> caught the error, that is for a
  \<^verbatim>\<open>KeyboardInterrupt\<close> and for every \<^verbatim>\<open>Exception\<close>; any other exception leaves
  \<open>main\<close>.
\<close>

lemma escaping_error_stops_loop:
  assumes "while_loop cv dumps (m\<lparr>running := True\<rparr>) pre = (None, m1)"
    and "loop_body cv dumps m1 io = (Inl e, m2)"
    and "cap (camera m) \<noteq> None"
  shows "main_try cv dumps False m (pre @ io # rest) =
           (Some (if e = KeyboardInterrupt \<or> is_Exception e then Inr 0 else Inl e),
            cleanup (cleanup m2))
         \<and> \<not> running (cleanup (cleanup m2))
         \<and> cap (camera (cleanup (cleanup m2))) = Some False
         \<and> released (camera m) < released (camera (cleanup (cleanup m2)))"
proof -
  from while_loop_fields [OF assms(1)] have run1: "running m1" by simp
  have "while_loop cv dumps (m\<lparr>running := True\<rparr>) (pre @ io # rest) =
          while_loop cv dumps m1 (io # rest)"
    by (rule while_loop_append [OF assms(1)])
  with run1 assms(2)
  have loop: "while_loop cv dumps (m\<lparr>running := True\<rparr>) (pre @ io # rest) = (Some (Inl e), m2)"
    by simp
  from while_loop_fields [OF loop] assms(3) have cam2: "cap (camera m2) \<noteq> None"
    "released (camera m2) = released (camera m)" by simp_all
  let ?r1 = "if e = KeyboardInterrupt then Inr () else if is_Exception e then Inr () else Inl e"
  have rc: "run_continuous cv dumps m (pre @ io # rest) = (Some ?r1, cleanup m2)"
    by (simp add: run_continuous_def loop)
  note c1 = cleanup_released [OF cam2(1)]
  then have cam3: "cap (camera (cleanup m2)) \<noteq> None" by simp
  note c2 = cleanup_released [OF cam3]
  have "main_try cv dumps False m (pre @ io # rest) =
           (Some (if e = KeyboardInterrupt \<or> is_Exception e then Inr 0 else Inl e),
            cleanup (cleanup m2))"
    by (cases e) (simp_all add: main_try_def rc)
  with c1 c2 cam2(2) show ?thesis by simp
qed

text \<open>
  C7. The loop does end and cleanup does run when an error leaves the cycle, but the
  exit status is not always non-zero. With \<^verbatim>\<open>--interval -1\<close> the sleep after the first
  cycle raises \<^verbatim>\<open>ValueError\<close>; the error leaves the body of the loop,
  \<open>run_continuous\<close> catches it and returns, and \<open>main\<close> returns 0. The handler of
  \<open>main\<close> that returns 1 on an \<^verbatim>\<open>Exception\<close> is never reached from the
  continuous loop.
\<close>

theorem fatal_loop_error_exits_zero:
  "fst (loop_body still_cv plain_dumps (ready_monitor\<lparr>interval := - 1, running := True\<rparr>)
          no_frame_io) = Inl (Exception ''sleep length must be non-negative'')
   \<and> initialize (new_monitor () negative_args) (Inr True) =
       (Inr True, ready_monitor\<lparr>interval := - 1\<rparr>)
   \<and> fst (main still_cv plain_dumps () negative_args (Inr True) [no_frame_io]) = Some (Inr 0)
   \<and> released (camera (snd (main still_cv plain_dumps () negative_args (Inr True)
          [no_frame_io]))) = 2"
  by (simp add: negative_run negative_initialize negative_loop_body ready_monitor_fields
      cleanup_def release_camera_def)

end
